theory Spec2Isabelle
  imports Complex_Main "HOL-Library.Char_ord" "HOL-Library.List_Lexorder"
begin

section \<open>Python values shared by the modules\<close>

text \<open>
  A raised exception is a value. \<^verbatim>\<open>Exception m\<close> stands for an instance of \<^verbatim>\<open>Exception\<close> or of
  one of its subclasses, with its message: what \<^verbatim>\<open>except Exception\<close> catches. An operation
  that may raise returns \<open>Inl\<close> of the exception or \<open>Inr\<close> of its value.
\<close>

datatype exn = Exception string

text \<open>
  Python strings are modelled as lists of \<^typ>\<open>char\<close>, one per code point below 256.
  \<^verbatim>\<open>str.strip\<close>, \<^verbatim>\<open>str.rstrip\<close> and the class \<^verbatim>\<open>\s\<close> of the module \<^verbatim>\<open>re\<close> agree on which
  of these code points are white space.
\<close>

definition is_space :: "char \<Rightarrow> bool" where
  "is_space c = (let n = (of_char c :: nat)
                 in (9 \<le> n \<and> n \<le> 13) \<or> (28 \<le> n \<and> n \<le> 32) \<or> n = 133 \<or> n = 160)"

definition is_digit :: "char \<Rightarrow> bool" where
  "is_digit c = (let n = (of_char c :: nat) in 48 \<le> n \<and> n \<le> 57)"

definition strip :: "string \<Rightarrow> string" where
  "strip s = dropWhile is_space (rev (dropWhile is_space (rev s)))"

definition rstrip :: "string \<Rightarrow> string" where
  "rstrip s = rev (dropWhile is_space (rev s))"

text \<open>The slice \<^verbatim>\<open>xs[:n]\<close>: a negative \<open>n\<close> counts from the end.\<close>

definition py_take :: "int \<Rightarrow> 'a list \<Rightarrow> 'a list" where
  "py_take n xs = (if 0 \<le> n then take (nat n) xs else take (length xs - nat (- n)) xs)"

text \<open>\<^verbatim>\<open>s.rfind(c)\<close>: the index of the last occurrence of \<open>c\<close>, or \<open>-1\<close>.\<close>

fun rfind_from :: "string \<Rightarrow> char \<Rightarrow> nat \<Rightarrow> int \<Rightarrow> int" where
  "rfind_from [] c i r = r"
| "rfind_from (x # xs) c i r = rfind_from xs c (Suc i) (if x = c then int i else r)"

definition rfind :: "string \<Rightarrow> char \<Rightarrow> int" where
  "rfind s c = rfind_from s c 0 (- 1)"

text \<open>\<^verbatim>\<open>d.get(k, default)\<close> on a dictionary kept as an association list.\<close>

definition dict_get :: "('k \<times> 'v) list \<Rightarrow> 'k \<Rightarrow> 'v \<Rightarrow> 'v" where
  "dict_get d k dflt = (case map_of d k of None \<Rightarrow> dflt | Some v \<Rightarrow> v)"

subsection \<open>The regular expressions of \<^verbatim>\<open>re.sub\<close> and \<^verbatim>\<open>re.split\<close>\<close>

text \<open>
  The patterns of this repository are sequences of single characters, character classes
  under a quantifier, the line anchor \<^verbatim>\<open>^\<close> (always under \<^verbatim>\<open>re.MULTILINE\<close>) and at most one
  group. \<open>Many c lo hi\<close> is the greedy quantifier on the class \<open>c\<close> with at least \<open>lo\<close> and
  at most \<open>hi\<close> repetitions (\<^verbatim>\<open>+\<close> is \<open>Many c 1 None\<close>, \<^verbatim>\<open>*\<close> is \<open>Many c 0 None\<close>,
  \<^verbatim>\<open>{1,6}\<close> is \<open>Many c 1 (Some 6)\<close>); \<open>Lazy c\<close> is \<^verbatim>\<open>*?\<close>.
\<close>

datatype cls = Lit char | One_of "char list" | None_of "char list" | Space | Digit | Any_char

fun in_cls :: "cls \<Rightarrow> char \<Rightarrow> bool" where
  "in_cls (Lit a) c = (c = a)"
| "in_cls (One_of as) c = (c \<in> set as)"
| "in_cls (None_of as) c = (c \<notin> set as)"
| "in_cls Space c = is_space c"
| "in_cls Digit c = is_digit c"
| "in_cls Any_char c = True"

datatype item = Bol | One cls | Many cls nat "nat option" | Lazy cls | Open_group | Close_group

type_synonym span = "nat \<times> nat"

text \<open>
  Backtracking in the order of \<^verbatim>\<open>re\<close>: a greedy quantifier tries the longest repetition
  first and gives characters back one at a time, a lazy one starts from none.
\<close>

fun greedy :: "(nat \<Rightarrow> 'a option) \<Rightarrow> nat \<Rightarrow> nat \<Rightarrow> 'a option" where
  "greedy f lo 0 = (if lo = 0 then f 0 else None)"
| "greedy f lo (Suc k) =
     (if Suc k < lo then None
      else case f (Suc k) of Some r \<Rightarrow> Some r | None \<Rightarrow> greedy f lo k)"

fun lazy :: "(nat \<Rightarrow> 'a option) \<Rightarrow> nat \<Rightarrow> nat \<Rightarrow> 'a option" where
  "lazy f k 0 = f k"
| "lazy f k (Suc n) = (case f k of Some r \<Rightarrow> Some r | None \<Rightarrow> lazy f (Suc k) n)"

definition prev_after :: "nat \<Rightarrow> char option \<Rightarrow> string \<Rightarrow> char option" where
  "prev_after k prev s = (if k = 0 then prev else Some (s ! (k - 1)))"

definition run :: "cls \<Rightarrow> nat option \<Rightarrow> string \<Rightarrow> nat" where
  "run c hi s = (let r = length (takeWhile (in_cls c) s)
                 in case hi of None \<Rightarrow> r | Some h \<Rightarrow> min h r)"

text \<open>
  \<open>rmatch p prev s off gs g\<close> matches the pattern \<open>p\<close> at the head of \<open>s\<close>, where \<open>prev\<close> is
  the character before it (\<open>None\<close> at the start of the text), \<open>off\<close> counts the characters
  consumed since the match began, \<open>gs\<close> is where the group opened and \<open>g\<close> the span of the
  closed group. The result is the length of the match and the span of the group.
\<close>

fun rmatch :: "item list \<Rightarrow> char option \<Rightarrow> string \<Rightarrow> nat \<Rightarrow> nat \<Rightarrow> span option
                 \<Rightarrow> (nat \<times> span option) option" where
  "rmatch [] prev s off gs g = Some (off, g)"
| "rmatch (Bol # items) prev s off gs g =
     (if prev = None \<or> prev = Some (CHR 0x0A) then rmatch items prev s off gs g else None)"
| "rmatch (One c # items) prev s off gs g =
     (case s of [] \<Rightarrow> None
      | x # xs \<Rightarrow> if in_cls c x then rmatch items (Some x) xs (Suc off) gs g else None)"
| "rmatch (Many c lo hi # items) prev s off gs g =
     greedy (\<lambda>k. rmatch items (prev_after k prev s) (drop k s) (off + k) gs g) lo (run c hi s)"
| "rmatch (Lazy c # items) prev s off gs g =
     lazy (\<lambda>k. rmatch items (prev_after k prev s) (drop k s) (off + k) gs g) 0 (run c None s)"
| "rmatch (Open_group # items) prev s off gs g = rmatch items prev s off off g"
| "rmatch (Close_group # items) prev s off gs g = rmatch items prev s off gs (Some (gs, off))"

text \<open>A match at the head of \<open>s\<close>: its length and the text of group 1.\<close>

definition re_match :: "item list \<Rightarrow> char option \<Rightarrow> string \<Rightarrow> (nat \<times> string) option" where
  "re_match p prev s =
     (case rmatch p prev s 0 0 None of
        None \<Rightarrow> None
      | Some (n, g) \<Rightarrow>
          Some (n, case g of None \<Rightarrow> [] | Some (a, b) \<Rightarrow> take (b - a) (drop a s)))"

datatype repl = Group1 | Const_text string

fun expand :: "repl \<Rightarrow> string \<Rightarrow> string" where
  "expand Group1 g = g"
| "expand (Const_text t) g = t"

text \<open>
  \<^verbatim>\<open>re.sub(p, r, s)\<close> and \<^verbatim>\<open>re.split(p, s)\<close> scan from the left for the next match and go on
  behind it. Every pattern below consumes at least one character when it matches; an empty
  match is passed over.
\<close>

function re_sub :: "item list \<Rightarrow> repl \<Rightarrow> char option \<Rightarrow> string \<Rightarrow> string" where
  "re_sub p r prev [] = []"
| "re_sub p r prev (c # cs) =
     (case re_match p prev (c # cs) of
        None \<Rightarrow> c # re_sub p r (Some c) cs
      | Some (n, g) \<Rightarrow>
          if n = 0 then c # re_sub p r (Some c) cs
          else expand r g @ re_sub p r (Some ((c # cs) ! (n - 1))) (drop n (c # cs)))"
  by pat_completeness auto
termination
  by (relation "measure (\<lambda>(p, r, prev, s). length s)") auto

text \<open>
  With a group in the pattern, \<^verbatim>\<open>re.split\<close> returns the text between the matches and the
  text of the group, alternating. \<open>acc\<close> is the piece being collected.
\<close>

function re_split :: "item list \<Rightarrow> string \<Rightarrow> char option \<Rightarrow> string \<Rightarrow> string list" where
  "re_split p acc prev [] = [acc]"
| "re_split p acc prev (c # cs) =
     (case re_match p prev (c # cs) of
        None \<Rightarrow> re_split p (acc @ [c]) (Some c) cs
      | Some (n, g) \<Rightarrow>
          if n = 0 then re_split p (acc @ [c]) (Some c) cs
          else acc # g # re_split p [] (Some ((c # cs) ! (n - 1))) (drop n (c # cs)))"
  by pat_completeness auto
termination
  by (relation "measure (\<lambda>(p, acc, prev, s). length s)") auto

definition lit :: "string \<Rightarrow> item list" where
  "lit s = map (\<lambda>c. One (Lit c)) s"

definition group :: "item list \<Rightarrow> item list" where
  "group p = Open_group # p @ [Close_group]"

section \<open>Text preparation for speech synthesis, \<^verbatim>\<open>app/services/deepgram_tts.py\<close>\<close>

text \<open>\<^verbatim>\<open>clean_text_for_tts\<close> (lines 12 to 52): the substitutions in the order of the source.\<close>

definition clean_text_for_tts :: "string \<Rightarrow> string" where
  "clean_text_for_tts text =
     (if text = [] then []
      else
        let cleaned = re_sub (lit ''**'' @ group [Many (None_of ''*'') 1 None] @ lit ''**'')
                        Group1 None text;
            cleaned = re_sub (lit ''*'' @ group [Many (None_of ''*'') 1 None] @ lit ''*'')
                        Group1 None cleaned;
            cleaned = re_sub (lit ''__'' @ group [Many (None_of ''_'') 1 None] @ lit ''__'')
                        Group1 None cleaned;
            cleaned = re_sub (lit ''_'' @ group [Many (None_of ''_'') 1 None] @ lit ''_'')
                        Group1 None cleaned;
            cleaned = re_sub (lit ''```'' @ [Lazy Any_char] @ lit ''```'')
                        (Const_text []) None cleaned;
            cleaned = re_sub (lit ''`'' @ group [Many (None_of ''`'') 1 None] @ lit ''`'')
                        Group1 None cleaned;
            cleaned = re_sub (lit ''['' @ group [Many (None_of '']'') 1 None] @ lit ''](''
                              @ [Many (None_of '')'') 1 None] @ lit '')'')
                        Group1 None cleaned;
            cleaned = re_sub [Bol, Many (Lit CHR ''#'') 1 (Some 6), Many Space 1 None]
                        (Const_text []) None cleaned;
            cleaned = re_sub [Bol, Many Space 0 None, One (One_of ''-*+''), Many Space 1 None]
                        (Const_text []) None cleaned;
            cleaned = re_sub [Bol, Many Digit 1 None, One (Lit CHR ''.''), Many Space 1 None]
                        (Const_text []) None cleaned;
            cleaned = re_sub (lit ''!['' @ group [Many (None_of '']'') 0 None] @ lit ''](''
                              @ [Many (None_of '')'') 1 None] @ lit '')'')
                        Group1 None cleaned;
            cleaned = re_sub (lit [CHR 0x0A, CHR 0x0A, CHR 0x0A] @ [Many (Lit (CHR 0x0A)) 0 None])
                        (Const_text [CHR 0x0A, CHR 0x0A]) None cleaned
        in strip cleaned)"

text \<open>The sentence separator \<^verbatim>\<open>([.!?]+[\s\n]+)\<close> of line 78.\<close>

definition sentence_end :: "item list" where
  "sentence_end = group [Many (One_of ''.!?'') 1 None, Many Space 1 None]"

text \<open>
  Lines 81 to 86: the pieces at the even indices \<open>0, 2, \<dots>\<close> below \<open>len - 1\<close>, each joined
  with the separator that follows it. The last piece of the split has no separator and is
  left out.
\<close>

fun combine :: "string list \<Rightarrow> string list" where
  "combine (a # b # rest) = (a @ b) # combine rest"
| "combine [a] = []"
| "combine [] = []"

text \<open>Lines 89 to 94: sentences are appended while the result stays within \<open>max_chars\<close>.\<close>

fun take_fitting :: "string \<Rightarrow> string list \<Rightarrow> int \<Rightarrow> string" where
  "take_fitting result [] max_chars = result"
| "take_fitting result (sentence # rest) max_chars =
     (if int (length (result @ sentence)) \<le> max_chars
      then take_fitting (result @ sentence) rest max_chars
      else result)"

text \<open>
  \<^verbatim>\<open>create_short_tts_version\<close> (lines 55 to 109). The test \<^verbatim>\<open>last_space > max_chars * 0.8\<close>
  of line 101 is written on integers, \<open>5 * last_space > 4 * max_chars\<close>.
\<close>

definition create_short_tts_version :: "string \<Rightarrow> int \<Rightarrow> int \<Rightarrow> string" where
  "create_short_tts_version text max_chars max_sentences =
     (if text = [] then []
      else
        let cleaned = clean_text_for_tts text in
        if int (length cleaned) \<le> max_chars then cleaned
        else
          let sentences = re_split sentence_end [] None cleaned;
              combined_sentences = combine sentences;
              result = take_fitting [] (py_take max_sentences combined_sentences) max_chars
          in if result = [] \<or> length result < 100
             then
               let truncated = py_take max_chars cleaned;
                   last_space = rfind truncated CHR '' ''
               in if 5 * last_space > 4 * max_chars
                  then py_take last_space truncated @ ''...''
                  else truncated @ ''...''
             else rstrip result)"

text \<open>
  \<^verbatim>\<open>DeepgramTTSService.generate_audio\<close> (lines 120 to 157). The Speech Synthesis Source is
  the parameter \<open>speak\<close>: for the text it is given, the chunks it delivers and then either
  the end of the stream (\<open>None\<close>) or the exception that breaks it off. The generator passes
  the non-empty chunks on.
\<close>

type_synonym bytes = "char list"

type_synonym synthesis_source = "string \<Rightarrow> bytes list \<times> exn option"

definition generate_audio ::
  "synthesis_source \<Rightarrow> string \<Rightarrow> int \<Rightarrow> int \<Rightarrow> bytes list \<times> exn option" where
  "generate_audio speak text max_chars max_sentences =
     (let tts_text = create_short_tts_version text max_chars max_sentences
      in if tts_text = [] then ([], None)
         else case speak tts_text of
                (chunks, failure) \<Rightarrow> (filter (\<lambda>audio_chunk. audio_chunk \<noteq> []) chunks, failure))"

section \<open>The Transcription Source, \<^verbatim>\<open>app/services/deepgram_stt.py\<close>\<close>

text \<open>
  Modelled from the spec: the event types \<^verbatim>\<open>ListenV1ResultsEvent\<close> and
  \<^verbatim>\<open>ListenV1SpeechStartedEvent\<close> belong to the Deepgram SDK and are not in the repository.
  The spec gives a transcript event the two parts \<open>{text, is_final}\<close>; the handler reads the
  text as \<^verbatim>\<open>event.channel.alternatives[0].transcript\<close>. Each of \<^verbatim>\<open>channel\<close>, \<^verbatim>\<open>alternatives\<close>,
  \<^verbatim>\<open>transcript\<close> and \<^verbatim>\<open>is_final\<close> may be \<^verbatim>\<open>None\<close>. As a results event always has the attribute
  \<^verbatim>\<open>is_final\<close>, the test \<^verbatim>\<open>hasattr(event, 'is_final')\<close> of line 100 holds.
\<close>

record alternative =
  transcript :: "string option"

record channel =
  alternatives :: "alternative list option"

record results_event =
  channel :: "channel option"
  is_final :: "bool option"

datatype stt_event = Speech_started | Results results_event | Other_event

text \<open>
  \<^verbatim>\<open>DeepgramSTTService._on_message\<close> (lines 85 to 106) on the Transcription Queue, oldest
  entry first. Each \<^verbatim>\<open>put\<close> on the unbounded \<^verbatim>\<open>asyncio.Queue\<close> is scheduled in the order of the
  calls.
\<close>

definition on_message :: "stt_event \<Rightarrow> string list \<Rightarrow> string list" where
  "on_message event transcription_queue =
     (case event of
        Speech_started \<Rightarrow> transcription_queue
      | Other_event \<Rightarrow> transcription_queue
      | Results ev \<Rightarrow>
          (case channel ev of
             None \<Rightarrow> transcription_queue
           | Some ch \<Rightarrow>
               (case alternatives ch of
                  None \<Rightarrow> transcription_queue
                | Some [] \<Rightarrow> transcription_queue
                | Some (first # _) \<Rightarrow>
                    (case transcript first of
                       None \<Rightarrow> transcription_queue
                     | Some sentence \<Rightarrow>
                         if sentence \<noteq> [] \<and> length sentence > 0
                         then (if is_final ev = Some True
                               then transcription_queue @ [sentence]
                               else transcription_queue)
                         else transcription_queue))))"

text \<open>The events of a connection, delivered to the handler one after the other.\<close>

definition deliver :: "stt_event list \<Rightarrow> string list \<Rightarrow> string list" where
  "deliver events transcription_queue = fold on_message events transcription_queue"

text \<open>
  \<^verbatim>\<open>get_transcription\<close> (lines 143 to 156): the next entry, or \<^verbatim>\<open>None\<close> when the queue stays
  empty for the time-out.
\<close>

definition get_transcription :: "string list \<Rightarrow> string option \<times> string list" where
  "get_transcription transcription_queue =
     (case transcription_queue of [] \<Rightarrow> (None, []) | x # rest \<Rightarrow> (Some x, rest))"

text \<open>What the handler reads of an event: its first transcript and whether it is final.\<close>

definition event_text :: "stt_event \<Rightarrow> string option" where
  "event_text event =
     (case event of
        Results ev \<Rightarrow>
          (case channel ev of
             None \<Rightarrow> None
           | Some ch \<Rightarrow>
               (case alternatives ch of
                  None \<Rightarrow> None
                | Some [] \<Rightarrow> None
                | Some (first # _) \<Rightarrow> transcript first))
      | _ \<Rightarrow> None)"

definition event_final :: "stt_event \<Rightarrow> bool" where
  "event_final event = (case event of Results ev \<Rightarrow> is_final ev = Some True | _ \<Rightarrow> False)"

section \<open>The Memory Store, \<^verbatim>\<open>app/services/langgraph_store.py\<close>\<close>

text \<open>
  \<^verbatim>\<open>try: body except Exception: handler\<close>, and the sequencing of operations that may raise.
\<close>

definition try_except :: "exn + 'a \<Rightarrow> (exn \<Rightarrow> exn + 'a) \<Rightarrow> exn + 'a" where
  "try_except body handler = (case body of Inl e \<Rightarrow> handler e | Inr v \<Rightarrow> Inr v)"

definition and_then :: "exn + 'a \<Rightarrow> ('a \<Rightarrow> exn + 'b) \<Rightarrow> exn + 'b" where
  "and_then m f = (case m of Inl e \<Rightarrow> Inl e | Inr v \<Rightarrow> f v)"

text \<open>What \<^verbatim>\<open>add_memory\<close> hands to \<^verbatim>\<open>self.store.aput\<close> in the namespace of a conversation.\<close>

record memory_entry =
  entry_conversation :: string
  entry_key :: string
  entry_text :: string
  entry_sender :: string
  entry_timestamp :: string
  entry_metadata :: "(string \<times> string) list"

text \<open>
  An item that \<^verbatim>\<open>self.store.asearch\<close> returns: its key and its value, which is \<^verbatim>\<open>None\<close>, a
  dictionary, or something else (on which \<^verbatim>\<open>.get\<close> raises \<^verbatim>\<open>AttributeError\<close>). Of a
  dictionary the entries with string values are kept, the ones \<^verbatim>\<open>get_recent_memories\<close>
  reads and callers use.
\<close>

datatype stored_value = Dict_value "(string \<times> string) list" | Not_a_dict

record store_item =
  item_key :: string
  item_value :: "stored_value option"

record memory_view =
  mem_key :: string
  mem_text :: string
  mem_sender :: string
  mem_timestamp :: string

text \<open>
  The service and what it relies on: \<^verbatim>\<open>self._available\<close>, the embedding service, the
  clock, and the two operations of the MongoDB store.
\<close>

record store_backend =
  available :: bool
  create_embedding :: "string \<Rightarrow> exn + real list"
  utcnow :: string
  aput :: "memory_entry \<Rightarrow> exn option"
  asearch :: "string \<Rightarrow> int \<Rightarrow> exn + store_item list"

text \<open>Lines 73 to 83: the key and the value that \<^verbatim>\<open>add_memory\<close> builds.\<close>

definition new_entry ::
  "store_backend \<Rightarrow> string \<Rightarrow> string \<Rightarrow> string \<Rightarrow> (string \<times> string) list option
     \<Rightarrow> memory_entry" where
  "new_entry b conversation_id text sender metadata =
     (let timestamp = utcnow b;
          key = sender @ ''_'' @ timestamp
      in \<lparr>entry_conversation = conversation_id, entry_key = key, entry_text = text,
          entry_sender = sender, entry_timestamp = timestamp,
          entry_metadata = (case metadata of None \<Rightarrow> [] | Some m \<Rightarrow> m)\<rparr>)"

text \<open>
  \<^verbatim>\<open>add_memory\<close> (lines 46 to 97), on the entries the store holds. The result is what the
  call gives its caller: \<open>Inl\<close> would be an exception that leaves the method.
\<close>

definition add_memory ::
  "store_backend \<Rightarrow> memory_entry list \<Rightarrow> string \<Rightarrow> string \<Rightarrow> string
     \<Rightarrow> (string \<times> string) list option \<Rightarrow> (exn + string option) \<times> memory_entry list" where
  "add_memory b stored conversation_id text sender metadata =
     (if \<not> available b then (Inr None, stored)
      else
        case
          try_except
            (and_then (create_embedding b text) (\<lambda>embedding.
               let entry = new_entry b conversation_id text sender metadata
               in case aput b entry of
                    Some e \<Rightarrow> Inl e
                  | None \<Rightarrow> Inr (Some (entry_key entry), stored @ [entry])))
            (\<lambda>e. Inr (None, stored))
        of Inl e \<Rightarrow> (Inl e, stored)
         | Inr (key, stored') \<Rightarrow> (Inr key, stored'))"

text \<open>
  The store takes an entry when it is available, the embedding is computed and the write
  goes through.
\<close>

definition accepts ::
  "store_backend \<Rightarrow> string \<Rightarrow> string \<Rightarrow> string \<Rightarrow> (string \<times> string) list option \<Rightarrow> bool" where
  "accepts b conversation_id text sender metadata =
     (available b \<and> \<not> isl (create_embedding b text)
      \<and> aput b (new_entry b conversation_id text sender metadata) = None)"

text \<open>Lines 174 to 183: the loop over the items found.\<close>

fun format_items :: "store_item list \<Rightarrow> exn + memory_view list" where
  "format_items [] = Inr []"
| "format_items (item # rest) =
     (case item_value item of
        None \<Rightarrow> format_items rest
      | Some Not_a_dict \<Rightarrow> Inl (Exception ''AttributeError'')
      | Some (Dict_value d) \<Rightarrow>
          if d = [] then format_items rest
          else and_then (format_items rest) (\<lambda>memories.
                 Inr (\<lparr>mem_key = item_key item,
                       mem_text = dict_get d ''text'' [],
                       mem_sender = dict_get d ''sender'' ''unknown'',
                       mem_timestamp = dict_get d ''timestamp'' []\<rparr> # memories)))"

text \<open>
  \<^verbatim>\<open>get_recent_memories\<close> (lines 148 to 192). \<^verbatim>\<open>list.sort\<close> is stable, as \<^const>\<open>sort_key\<close> is.
\<close>

definition get_recent_memories ::
  "store_backend \<Rightarrow> string \<Rightarrow> int \<Rightarrow> exn + memory_view list" where
  "get_recent_memories b conversation_id limit =
     (if \<not> available b then Inr []
      else
        try_except
          (and_then (asearch b conversation_id limit) (\<lambda>results.
           and_then (format_items results) (\<lambda>memories.
             Inr (py_take limit (sort_key mem_timestamp memories)))))
          (\<lambda>e. Inr []))"

section \<open>The voice session, \<^verbatim>\<open>app/api/voice_websocket.py\<close>\<close>

subsection \<open>Frames, tasks and the closure state of \<^verbatim>\<open>voice_ws\<close>\<close>

text \<open>
  Outbound frames: the JSON control records handed to \<^verbatim>\<open>ws.send_json\<close>, named by their
  \<^verbatim>\<open>type\<close> field, and the binary frames handed to \<^verbatim>\<open>ws.send_bytes\<close>.
\<close>

datatype frame =
    Ready
  | Transcription string
  | Agent_response string
  | Tts_start
  | Tts_end
  | Tts_error string
  | Interrupt
  | Pong
  | Error_frame string
  | Audio bytes

text \<open>
  An asyncio task is an object with identity; the session refers to it by a handle.
  \<^verbatim>\<open>Task.done()\<close> is true of a task that has finished or has been cancelled.
\<close>

datatype task_state = Pending | Finished | Cancelled

text \<open>
  The variables that the nested functions of \<^verbatim>\<open>voice_ws\<close> share (its parameter
  \<^verbatim>\<open>conversation_id\<close> and lines 26 to 34), together with what the session has done so far:
  the frames sent to the peer, oldest first, the entries the Memory Store holds, and the
  audio forwarded to the Transcription Source. Times are milliseconds, as
  \<^verbatim>\<open>time.time() * 1000\<close> gives them. The peer's socket is taken to be open, so that a send
  returns.
\<close>

record session =
  conversation_id :: string
  tasks :: "nat \<Rightarrow> task_state"
  current_agent_task :: "nat option"
  current_tts_task :: "nat option"
  interruption_event :: bool
  last_interruption_time :: real
  message_count :: nat
  deepgram_active :: bool
  sent :: "frame list"
  memory :: "memory_entry list"
  audio_forwarded :: "bytes list"

definition INTERRUPTION_DEBOUNCE_MS :: real where
  "INTERRUPTION_DEBOUNCE_MS = 500"

text \<open>The session as lines 26 to 34 set it up.\<close>

definition new_session :: "string \<Rightarrow> session" where
  "new_session cid =
     \<lparr>conversation_id = cid, tasks = (\<lambda>_. Pending), current_agent_task = None,
      current_tts_task = None, interruption_event = False, last_interruption_time = 0,
      message_count = 0, deepgram_active = False, sent = [], memory = [],
      audio_forwarded = []\<rparr>"

definition task_done :: "session \<Rightarrow> nat \<Rightarrow> bool" where
  "task_done s t = (tasks s t \<noteq> Pending)"

text \<open>\<^verbatim>\<open>ref and not ref.done()\<close> for a task reference that may be \<^verbatim>\<open>None\<close>.\<close>

definition active :: "session \<Rightarrow> nat option \<Rightarrow> bool" where
  "active s r = (case r of None \<Rightarrow> False | Some t \<Rightarrow> \<not> task_done s t)"

definition agent_is_responding :: "session \<Rightarrow> bool" where
  "agent_is_responding s =
     (active s (current_agent_task s) \<or> active s (current_tts_task s))"

text \<open>
  \<^verbatim>\<open>task.cancel()\<close> followed by \<^verbatim>\<open>await task\<close> under \<^verbatim>\<open>except asyncio.CancelledError: pass\<close>:
  the task unwinds with the cancellation (\<^verbatim>\<open>run_agent\<close> and \<^verbatim>\<open>generate_tts\<close> both re-raise
  it) and the awaiting coroutine goes on.
\<close>

definition cancel_and_await :: "nat \<Rightarrow> session \<Rightarrow> session" where
  "cancel_and_await t s = s\<lparr>tasks := (tasks s)(t := Cancelled)\<rparr>"

definition ws_send :: "frame \<Rightarrow> session \<Rightarrow> session" where
  "ws_send f s = s\<lparr>sent := sent s @ [f]\<rparr>"

subsection \<open>The Interruption Coordinator\<close>

text \<open>
  \<^verbatim>\<open>interrupt_current_response\<close> (lines 36 to 84). The argument \<open>current_time\<close> is the
  clock reading of line 51.
\<close>

definition interrupt_current_response :: "real \<Rightarrow> session \<Rightarrow> session" where
  "interrupt_current_response current_time s =
     (if \<not> agent_is_responding s then s
      else if current_time - last_interruption_time s < INTERRUPTION_DEBOUNCE_MS then s
      else
        let s1 = s\<lparr>last_interruption_time := current_time\<rparr>;
            s2 = s1\<lparr>interruption_event := True\<rparr>;
            s3 = (if active s2 (current_agent_task s2)
                  then (cancel_and_await (the (current_agent_task s2)) s2)
                         \<lparr>current_agent_task := None\<rparr>
                  else s2);
            s4 = (if active s3 (current_tts_task s3)
                  then (cancel_and_await (the (current_tts_task s3)) s3)
                         \<lparr>current_tts_task := None\<rparr>
                  else s3)
        in ws_send Interrupt s4)"

subsection \<open>The Response Pipeline\<close>

text \<open>
  What a turn meets outside the session: the clock, the Memory Store's backend, the
  Reasoning Service and the Speech Synthesis Source. Awaiting the task that runs
  \<^verbatim>\<open>agent_graph.ainvoke(state, config)\<close> returns the result dictionary, raises what the
  graph raised, or raises \<^verbatim>\<open>asyncio.CancelledError\<close> (which is no \<^verbatim>\<open>Exception\<close>) when the task
  was cancelled.
\<close>

record agent_state =
  user_input :: string
  state_conversation_id :: string
  conversation_history :: "(string \<times> string) list"

datatype 'a awaited = Returned 'a | Raised exn | Await_cancelled

text \<open>
  The interruption event is shared: another coroutine may set it, or cancel the synthesis
  task, while the turn is suspended. This is where the turn finds out, if it does:
  at the check after the reasoning call (line 169), at the check before synthesis (line
  194), once \<open>k\<close> audio chunks were forwarded (seen at line 214 before the next chunk or at
  line 234 behind the last), or as the cancellation of the synthesis task once \<open>k\<close> chunks
  were forwarded (line 227).
\<close>

datatype interruption =
    Signal_after_reason
  | Signal_before_synthesis
  | Signal_at_chunk nat
  | Cancel_at_chunk nat

record turn_env =
  clock :: real
  backend :: store_backend
  agent :: "agent_state \<Rightarrow> (string \<times> string) list awaited"
  speak :: synthesis_source
  interruption :: "interruption option"

text \<open>
  A call of the Memory Store from the session (lines 103 to 112 and 175 to 183):
  \<^verbatim>\<open>message_count\<close> goes up unless the call raises.
\<close>

definition store_message :: "turn_env \<Rightarrow> string \<Rightarrow> string \<Rightarrow> session \<Rightarrow> session" where
  "store_message env text sender s =
     (case add_memory (backend env) (memory s) (conversation_id s) text sender None of
        (Inl e, stored) \<Rightarrow> s\<lparr>memory := stored\<rparr>
      | (Inr key, stored) \<Rightarrow> s\<lparr>memory := stored, message_count := message_count s + 1\<rparr>)"

definition forward_chunks :: "bytes list \<Rightarrow> session \<Rightarrow> session" where
  "forward_chunks chunks s = s\<lparr>sent := sent s @ map Audio chunks\<rparr>"

text \<open>
  Lines 191 to 248, from \<^verbatim>\<open>tts_start\<close> on. The tasks created in \<^verbatim>\<open>process_transcription\<close>
  are bound to names local to that function (it declares only \<^verbatim>\<open>message_count\<close> nonlocal),
  so \<^verbatim>\<open>current_agent_task\<close> and \<^verbatim>\<open>current_tts_task\<close> of the session stay as they are.
\<close>

definition synthesize :: "turn_env \<Rightarrow> string \<Rightarrow> session \<Rightarrow> session" where
  "synthesize env response_text s =
     (let s1 = ws_send Tts_start s;
          (chunks, failure) = generate_audio (speak env) response_text 1500 5;
          n = length chunks
      in case interruption env of
           Some (Cancel_at_chunk k) \<Rightarrow>
             if k \<le> n then forward_chunks (take k chunks) s1
             else (case failure of
                     Some (Exception m) \<Rightarrow> ws_send (Tts_error m) (forward_chunks chunks s1)
                   | None \<Rightarrow> ws_send Tts_end (forward_chunks chunks s1))
         | Some (Signal_at_chunk k) \<Rightarrow>
             if k < n then (forward_chunks (take k chunks) s1)\<lparr>interruption_event := True\<rparr>
             else (case failure of
                     Some (Exception m) \<Rightarrow> ws_send (Tts_error m) (forward_chunks chunks s1)
                   | None \<Rightarrow>
                       if k = n then (forward_chunks chunks s1)\<lparr>interruption_event := True\<rparr>
                       else ws_send Tts_end (forward_chunks chunks s1))
         | _ \<Rightarrow>
             (case failure of
                Some (Exception m) \<Rightarrow> ws_send (Tts_error m) (forward_chunks chunks s1)
              | None \<Rightarrow> ws_send Tts_end (forward_chunks chunks s1)))"

text \<open>Lines 168 to 195: the reasoning call has returned \<open>result\<close>.\<close>

definition respond :: "turn_env \<Rightarrow> (string \<times> string) list \<Rightarrow> session \<Rightarrow> session" where
  "respond env result s =
     (if interruption env = Some Signal_after_reason then s\<lparr>interruption_event := True\<rparr>
      else
        let response_text =
              dict_get result ''response'' ''I'm sorry, I couldn't process that request.'';
            s1 = store_message env response_text ''agent'' s;
            s2 = ws_send (Agent_response response_text) s1
        in if interruption env = Some Signal_before_synthesis
           then s2\<lparr>interruption_event := True\<rparr>
           else synthesize env response_text s2)"

text \<open>
  Lines 250 to 274, the handler of an \<^verbatim>\<open>Exception\<close> in the reasoning part: the fixed reply
  is sent and spoken, with no look at the interruption event.
\<close>

definition error_response :: string where
  "error_response = ''I'm sorry, I encountered an error. Please try again.''"

definition agent_error :: "turn_env \<Rightarrow> session \<Rightarrow> session" where
  "agent_error env s =
     (let s1 = ws_send (Agent_response error_response) s;
          s2 = ws_send Tts_start s1;
          (chunks, failure) = generate_audio (speak env) error_response 1500 5
      in case failure of
           Some e \<Rightarrow> forward_chunks chunks s2
         | None \<Rightarrow> ws_send Tts_end (forward_chunks chunks s2))"

text \<open>\<^verbatim>\<open>process_transcription\<close> (lines 86 to 276).\<close>

definition process_transcription :: "turn_env \<Rightarrow> string \<Rightarrow> session \<Rightarrow> session" where
  "process_transcription env user_text s =
     (if strip user_text = [] then s
      else
        let s1 = interrupt_current_response (clock env) s;
            s2 = ws_send (Transcription user_text) s1;
            s3 = store_message env user_text ''user'' s2;
            was_interrupted = interruption_event s3;
            s4 = s3\<lparr>interruption_event := False\<rparr>
        in if was_interrupted then s4
           else
             (case get_recent_memories (backend env) (conversation_id s4) 20 of
                Inl e \<Rightarrow> agent_error env s4
              | Inr recent_memories \<Rightarrow>
                 let state = \<lparr>user_input = user_text,
                              state_conversation_id = conversation_id s4,
                              conversation_history =
                                map (\<lambda>mem. (mem_sender mem, mem_text mem)) recent_memories\<rparr>
                 in (case agent env state of
                       Await_cancelled \<Rightarrow> s4
                     | Raised e \<Rightarrow> agent_error env s4
                     | Returned result \<Rightarrow> respond env result s4)))"

text \<open>
  One round of \<^verbatim>\<open>process_transcription_queue\<close> (lines 279 to 286): the next transcript is
  taken when the turn before it has returned.
\<close>

definition consume :: "turn_env \<Rightarrow> string list \<times> session \<Rightarrow> string list \<times> session" where
  "consume env qs =
     (case get_transcription (fst qs) of
        (None, rest) \<Rightarrow> (rest, snd qs)
      | (Some user_text, rest) \<Rightarrow>
          if user_text \<noteq> [] then (rest, process_transcription env user_text (snd qs))
          else (rest, snd qs))"

subsection \<open>The message loop of \<^verbatim>\<open>voice_ws\<close>\<close>

text \<open>
  A decoded JSON text, as \<^verbatim>\<open>json.loads\<close> returns it. The decoder belongs to Python's
  library and is a parameter of the loop: \<open>None\<close> is \<^verbatim>\<open>json.JSONDecodeError\<close>.
\<close>

datatype json =
    JNull
  | JBool bool
  | JNum int
  | JStr string
  | JArr "json list"
  | JObj "(string \<times> json) list"

type_synonym decoder = "string \<Rightarrow> json option"

text \<open>
  What \<^verbatim>\<open>ws.receive()\<close> gives: a message with the key \<^verbatim>\<open>text\<close>, one with the key \<^verbatim>\<open>bytes\<close>,
  one with neither, or the exception \<^verbatim>\<open>WebSocketDisconnect\<close>.
\<close>

datatype message = Text_message string | Bytes_message bytes | Other_message | Disconnect

text \<open>
  \<^verbatim>\<open>stt_service.send_audio\<close> returns, or raises \<^verbatim>\<open>ConnectionClosedOK\<close>,
  \<^verbatim>\<open>ConnectionClosedError\<close> or another exception.
\<close>

datatype audio_outcome = Audio_sent | Closed_ok | Closed_error | Audio_failed

text \<open>
  How one round of the loop (lines 339 to 388) ends: with the next round, with a
  \<^verbatim>\<open>break\<close>, or with an exception that the handler of line 392 catches outside the loop.
  After a \<^verbatim>\<open>break\<close> or an exception the session is torn down: the tasks are cancelled and
  the socket is closed (lines 395 to 430).
\<close>

datatype round_end = Next_round | Break | Loop_exception exn

text \<open>\<^verbatim>\<open>data.get("type")\<close>: only a dictionary has the method \<^verbatim>\<open>get\<close>.\<close>

fun get_type :: "json \<Rightarrow> exn + json option" where
  "get_type (JObj d) = Inr (map_of d ''type'')"
| "get_type _ = Inl (Exception ''AttributeError'')"

definition handle_message ::
  "decoder \<Rightarrow> (bytes \<Rightarrow> audio_outcome) \<Rightarrow> message \<Rightarrow> session \<Rightarrow> round_end \<times> session" where
  "handle_message json_loads send_audio msg s =
     (case msg of
        Disconnect \<Rightarrow> (Break, s)
      | Text_message text \<Rightarrow>
          let text_content = strip text in
          if text_content = [] then (Next_round, s)
          else
            (case json_loads text_content of
               None \<Rightarrow> (Next_round, s)
             | Some data \<Rightarrow>
                 (case get_type data of
                    Inl e \<Rightarrow> (Loop_exception e, s)
                  | Inr message_type \<Rightarrow>
                      if message_type = Some (JStr ''stop'') then (Break, s)
                      else if message_type = Some (JStr ''ping'') then (Next_round, ws_send Pong s)
                      else (Next_round, s)))
      | Bytes_message audio_data \<Rightarrow>
          if deepgram_active s
          then (case send_audio audio_data of
                  Audio_sent \<Rightarrow>
                    (Next_round, s\<lparr>audio_forwarded := audio_forwarded s @ [audio_data]\<rparr>)
                | Closed_ok \<Rightarrow> (Break, s\<lparr>deepgram_active := False\<rparr>)
                | Closed_error \<Rightarrow> (Break, s\<lparr>deepgram_active := False\<rparr>)
                | Audio_failed \<Rightarrow> (Next_round, s))
          else (Next_round, s)
      | Other_message \<Rightarrow> (Next_round, s))"

text \<open>
  The loop over the messages that arrive. \<open>Next_round\<close> at the end says that the loop is
  still running, waiting in \<^verbatim>\<open>ws.receive()\<close>.
\<close>

fun message_loop ::
  "decoder \<Rightarrow> (bytes \<Rightarrow> audio_outcome) \<Rightarrow> message list \<Rightarrow> session \<Rightarrow> round_end \<times> session" where
  "message_loop json_loads send_audio [] s = (Next_round, s)"
| "message_loop json_loads send_audio (msg # rest) s =
     (case handle_message json_loads send_audio msg s of
        (Next_round, s') \<Rightarrow> message_loop json_loads send_audio rest s'
      | (ending, s') \<Rightarrow> (ending, s'))"

section \<open>Sessions and environments used as examples\<close>

text \<open>A session whose synthesis task has finished and is still referred to.\<close>

definition idle_session :: session where
  "idle_session =
     (new_session ''c1'')\<lparr>tasks := (\<lambda>_. Pending)(0 := Finished), current_tts_task := Some 0\<rparr>"

text \<open>
  A session whose synthesis task 1 is running, with an interruption recorded at 1000 ms.
\<close>

definition speaking_session :: session where
  "speaking_session =
     (new_session ''c1'')\<lparr>current_tts_task := Some 1, last_interruption_time := 1000\<rparr>"

text \<open>A store that accepts every write and holds nothing yet.\<close>

definition working_backend :: store_backend where
  "working_backend =
     \<lparr>available = True, create_embedding = (\<lambda>_. Inr []), utcnow = ''2024-05-01T10:00:00'',
      aput = (\<lambda>_. None), asearch = (\<lambda>_ _. Inr [])\<rparr>"

text \<open>
  A turn at 2000 ms in which the Reasoning Service answers and the Speech Synthesis Source
  delivers two chunks.
\<close>

definition answering_env :: turn_env where
  "answering_env =
     \<lparr>clock = 2000, backend = working_backend,
      agent = (\<lambda>_. Returned [(''response'', ''Hello there.'')]),
      speak = (\<lambda>_. ([''ab'', ''cd''], None)), interruption = None\<rparr>"

text \<open>The same turn with a Reasoning Service that raises.\<close>

definition failing_env :: turn_env where
  "failing_env = answering_env\<lparr>agent := (\<lambda>_. Raised (Exception ''model unavailable''))\<rparr>"


text \<open>
  The decoder on the texts used below, where it agrees with \<^verbatim>\<open>json.loads\<close>: \<^verbatim>\<open>[]\<close> is the
  empty array, \<open>ping_text\<close> is the object \<^verbatim>\<open>{"type": "ping"}\<close>, and \<^verbatim>\<open>not json\<close> does not decode.
\<close>

definition ping_text :: string where
  "ping_text = ''{'' @ [CHR 0x22] @ ''type'' @ [CHR 0x22] @ '': '' @ [CHR 0x22] @ ''ping''
                 @ [CHR 0x22] @ ''}''"

definition sample_loads :: decoder where
  "sample_loads text =
     (if text = ''[]'' then Some (JArr [])
      else if text = ping_text then Some (JObj [(''type'', JStr ''ping'')])
      else None)"

text \<open>A Transcription Source that takes every audio frame.\<close>

definition audio_accepted :: "bytes \<Rightarrow> audio_outcome" where
  "audio_accepted audio_data = Audio_sent"

text \<open>
  Events of the Transcription Source: an interim result, a final result, a final result
  with an empty transcript, and a voice activity event.
\<close>

definition results :: "string \<Rightarrow> bool \<Rightarrow> stt_event" where
  "results text final =
     Results \<lparr>channel = Some \<lparr>alternatives = Some [\<lparr>transcript = Some text\<rparr>]\<rparr>,
              is_final = Some final\<rparr>"

definition sample_events :: "stt_event list" where
  "sample_events =
     [results ''what is'' False, results ''what is my order status'' True, results [] True,
      Speech_started]"

text \<open>A store whose write fails and whose search returns an item that is no dictionary.\<close>

definition failing_backend :: store_backend where
  "failing_backend =
     working_backend\<lparr>aput := (\<lambda>_. Some (Exception ''ServerSelectionTimeoutError'')),
                     asearch := (\<lambda>_ _. Inr [\<lparr>item_key = ''k'', item_value = Some Not_a_dict\<rparr>])\<rparr>"

text \<open>A response of 147 characters in three sentences, the last one unfinished.\<close>

definition three_sentences :: string where
  "three_sentences =
     ''The quick brown fox jumps over the lazy dog near the river bank. ''
     @ ''The quick brown fox jumps over the lazy dog near the river bank. ''
     @ ''And then it rests''"

text \<open>A turn in which the Reasoning Service answers with these three sentences.\<close>

definition long_answer_env :: turn_env where
  "long_answer_env =
     answering_env\<lparr>agent := (\<lambda>_. Returned [(''response'', three_sentences)])\<rparr>"

text \<open>
  The turn of \<open>answering_env\<close> taken up at another time, and three final transcripts on the
  Transcription Queue: the first starts a response, the other two arrive while it is being
  produced.
\<close>

definition turn_at :: "real \<Rightarrow> turn_env" where
  "turn_at t = answering_env\<lparr>clock := t\<rparr>"

definition three_transcripts :: "string list" where
  "three_transcripts = [''hello'', ''wait'', ''actually cancel that'']"

text \<open>Four words with no sentence end, and a short word before a long one.\<close>

definition four_words :: string where
  "four_words = ''aaaa bbbb cccc dddd''"

definition long_word :: string where
  "long_word = ''aaa bbbbbbbbbbbbb''"

section \<open>Properties\<close>

subsection \<open>The Interruption Coordinator\<close>

lemma interrupt_idle:
  assumes "\<not> agent_is_responding s"
  shows "interrupt_current_response t s = s"
  using assms by (simp add: interrupt_current_response_def)

lemma interrupt_debounced:
  assumes "t - last_interruption_time s < INTERRUPTION_DEBOUNCE_MS"
  shows "interrupt_current_response t s = s"
  using assms by (simp add: interrupt_current_response_def)

lemma interrupt_fires:
  assumes "agent_is_responding s"
      and "INTERRUPTION_DEBOUNCE_MS \<le> t - last_interruption_time s"
  shows "sent (interrupt_current_response t s) = sent s @ [Interrupt]"
    and "last_interruption_time (interrupt_current_response t s) = t"
    and "interruption_event (interrupt_current_response t s)"
    and "memory (interrupt_current_response t s) = memory s"
    and "conversation_id (interrupt_current_response t s) = conversation_id s"
  using assms
  by (simp_all add: interrupt_current_response_def Let_def ws_send_def cancel_and_await_def)

lemma tasks_after_interrupt:
  assumes "agent_is_responding s"
      and "INTERRUPTION_DEBOUNCE_MS \<le> t - last_interruption_time s"
  shows "tasks (interrupt_current_response t s) k =
           (if (current_agent_task s = Some k \<or> current_tts_task s = Some k) \<and> tasks s k = Pending
            then Cancelled else tasks s k)"
proof (cases "current_agent_task s")
  case None
  then show ?thesis
    using assms
    by (cases "current_tts_task s")
       (simp_all add: interrupt_current_response_def Let_def ws_send_def cancel_and_await_def
          active_def task_done_def agent_is_responding_def)
next
  case (Some a)
  then show ?thesis
    using assms
    by (cases "current_tts_task s")
       (simp_all add: interrupt_current_response_def Let_def ws_send_def cancel_and_await_def
          active_def task_done_def agent_is_responding_def)
qed

lemma interrupt_cancels:
  assumes "agent_is_responding s"
      and "INTERRUPTION_DEBOUNCE_MS \<le> t - last_interruption_time s"
      and "current_agent_task s = Some k \<or> current_tts_task s = Some k"
      and "tasks s k = Pending"
  shows "tasks (interrupt_current_response t s) k = Cancelled"
  using assms by (simp add: tasks_after_interrupt)

lemma agent_ref_after_interrupt:
  assumes "agent_is_responding s"
      and "INTERRUPTION_DEBOUNCE_MS \<le> t - last_interruption_time s"
  shows "current_agent_task (interrupt_current_response t s) =
           (if active s (current_agent_task s) then None else current_agent_task s)"
proof (cases "current_agent_task s")
  case None
  then show ?thesis
    using assms
    by (cases "current_tts_task s")
       (simp_all add: interrupt_current_response_def Let_def ws_send_def cancel_and_await_def
          active_def task_done_def agent_is_responding_def)
next
  case (Some a)
  then show ?thesis
    using assms
    by (cases "current_tts_task s")
       (simp_all add: interrupt_current_response_def Let_def ws_send_def cancel_and_await_def
          active_def task_done_def agent_is_responding_def)
qed

lemma tts_ref_after_interrupt:
  assumes "agent_is_responding s"
      and "INTERRUPTION_DEBOUNCE_MS \<le> t - last_interruption_time s"
  shows "current_tts_task (interrupt_current_response t s) =
           (if active s (current_tts_task s)
               \<and> \<not> (active s (current_agent_task s) \<and> current_agent_task s = current_tts_task s)
            then None else current_tts_task s)"
proof (cases "current_agent_task s")
  case None
  then show ?thesis
    using assms
    by (cases "current_tts_task s")
       (simp_all add: interrupt_current_response_def Let_def ws_send_def cancel_and_await_def
          active_def task_done_def agent_is_responding_def)
next
  case (Some a)
  then show ?thesis
    using assms
    by (cases "current_tts_task s")
       (auto simp add: interrupt_current_response_def Let_def ws_send_def cancel_and_await_def
          active_def task_done_def agent_is_responding_def)
qed

lemma interrupt_clears:
  assumes "agent_is_responding s"
      and "INTERRUPTION_DEBOUNCE_MS \<le> t - last_interruption_time s"
  shows "\<not> active (interrupt_current_response t s)
             (current_agent_task (interrupt_current_response t s))"
    and "\<not> active (interrupt_current_response t s)
             (current_tts_task (interrupt_current_response t s))"
proof -
  let ?s' = "interrupt_current_response t s"
  have tk: "\<And>k. tasks ?s' k =
      (if (current_agent_task s = Some k \<or> current_tts_task s = Some k) \<and> tasks s k = Pending
       then Cancelled else tasks s k)"
    using assms by (rule tasks_after_interrupt)
  show "\<not> active ?s' (current_agent_task ?s')"
    unfolding agent_ref_after_interrupt [OF assms]
    by (cases "current_agent_task s") (simp_all add: active_def task_done_def tk)
  show "\<not> active ?s' (current_tts_task ?s')"
    unfolding tts_ref_after_interrupt [OF assms]
    by (cases "current_tts_task s") (simp_all add: active_def task_done_def tk)
qed

text \<open>
  Claim C8. Called when neither the pipeline task nor the synthesis task is active,
  \<^verbatim>\<open>interrupt_current_response\<close> returns the session exactly as it found it: no frame is
  sent, no task is cancelled, and \<^verbatim>\<open>last_interruption_time\<close> and the interruption event
  keep their values.
\<close>

theorem interrupt_noop_when_idle:
  assumes "\<not> active s (current_agent_task s)" and "\<not> active s (current_tts_task s)"
  shows "interrupt_current_response current_time s = s"
  using assms by (simp add: interrupt_current_response_def agent_is_responding_def)

theorem interrupt_noop_when_idle_witness:
  "\<not> active idle_session (current_agent_task idle_session)
   \<and> \<not> active idle_session (current_tts_task idle_session)
   \<and> interrupt_current_response 5000 idle_session = idle_session"
proof -
  have a: "\<not> active idle_session (current_agent_task idle_session)"
    by (simp add: idle_session_def new_session_def active_def)
  have b: "\<not> active idle_session (current_tts_task idle_session)"
    by (simp add: idle_session_def new_session_def active_def task_done_def)
  from interrupt_noop_when_idle [OF a b, of 5000] a b show ?thesis
    by blast
qed

subsection \<open>The Memory Store as the session uses it\<close>

lemma add_memory_cases:
  "add_memory b stored cid text sender md =
     (if accepts b cid text sender md
      then (Inr (Some (entry_key (new_entry b cid text sender md))),
            stored @ [new_entry b cid text sender md])
      else (Inr None, stored))"
  by (auto simp: add_memory_def accepts_def try_except_def and_then_def Let_def
        split: sum.splits option.splits)

lemma memory_store_message:
  "memory (store_message env text sender s) =
     (if accepts (backend env) (conversation_id s) text sender None
      then memory s @ [new_entry (backend env) (conversation_id s) text sender None]
      else memory s)"
  by (simp add: store_message_def add_memory_cases)

lemma store_message_frame:
  "sent (store_message env text sender s) = sent s"
  "interruption_event (store_message env text sender s) = interruption_event s"
  "conversation_id (store_message env text sender s) = conversation_id s"
  "last_interruption_time (store_message env text sender s) = last_interruption_time s"
  "tasks (store_message env text sender s) = tasks s"
  "current_agent_task (store_message env text sender s) = current_agent_task s"
  "current_tts_task (store_message env text sender s) = current_tts_task s"
  by (simp_all add: store_message_def split: prod.splits sum.splits)

lemma ws_send_frame:
  "sent (ws_send f s) = sent s @ [f]"
  "interruption_event (ws_send f s) = interruption_event s"
  "conversation_id (ws_send f s) = conversation_id s"
  "memory (ws_send f s) = memory s"
  by (simp_all add: ws_send_def)

subsection \<open>An interruption that is performed\<close>

text \<open>
  Claim C1. When \<^verbatim>\<open>process_transcription\<close> takes up a transcript while the session refers
  to a pipeline task or a synthesis task that is not done, and at least 500 ms have passed
  since the interruption recorded last, \<^verbatim>\<open>interrupt_current_response\<close> records the clock
  reading as the new \<^verbatim>\<open>last_interruption_time\<close>, sets the interruption event, cancels every
  task that a reference held active and clears that reference, so that no reference is left
  to a task that is not done, and sends one \<^verbatim>\<open>interrupt\<close>; the frames of the call are that
  \<^verbatim>\<open>interrupt\<close> followed by the \<^verbatim>\<open>transcription\<close> of the new turn.
\<close>

theorem interruption_performed:
  assumes "agent_is_responding s"
      and "INTERRUPTION_DEBOUNCE_MS \<le> clock env - last_interruption_time s"
      and "strip user_text \<noteq> []"
  shows "last_interruption_time (interrupt_current_response (clock env) s) = clock env
       \<and> interruption_event (interrupt_current_response (clock env) s)
       \<and> (\<forall>k. (current_agent_task s = Some k \<or> current_tts_task s = Some k) \<and> tasks s k = Pending
              \<longrightarrow> tasks (interrupt_current_response (clock env) s) k = Cancelled)
       \<and> \<not> active (interrupt_current_response (clock env) s)
               (current_agent_task (interrupt_current_response (clock env) s))
       \<and> \<not> active (interrupt_current_response (clock env) s)
               (current_tts_task (interrupt_current_response (clock env) s))
       \<and> (active s (current_agent_task s)
              \<longrightarrow> current_agent_task (interrupt_current_response (clock env) s) = None)
       \<and> (active s (current_tts_task s) \<and> current_tts_task s \<noteq> current_agent_task s
              \<longrightarrow> current_tts_task (interrupt_current_response (clock env) s) = None)
       \<and> sent (interrupt_current_response (clock env) s) = sent s @ [Interrupt]
       \<and> sent (process_transcription env user_text s)
           = sent s @ [Interrupt, Transcription user_text]"
proof -
  let ?s1 = "interrupt_current_response (clock env) s"
  note f = interrupt_fires [OF assms(1,2)]
  have cancel: "\<forall>k. (current_agent_task s = Some k \<or> current_tts_task s = Some k)
        \<and> tasks s k = Pending \<longrightarrow> tasks ?s1 k = Cancelled"
    using assms(1,2) interrupt_cancels by blast
  note c = interrupt_clears [OF assms(1,2)]
  have a_ref: "active s (current_agent_task s) \<longrightarrow> current_agent_task ?s1 = None"
    by (simp add: agent_ref_after_interrupt [OF assms(1,2)])
  have t_ref: "active s (current_tts_task s) \<and> current_tts_task s \<noteq> current_agent_task s
        \<longrightarrow> current_tts_task ?s1 = None"
    by (auto simp: tts_ref_after_interrupt [OF assms(1,2)])
  have turn: "sent (process_transcription env user_text s)
      = sent s @ [Interrupt, Transcription user_text]"
    using assms(3) f(1,3)
    by (simp add: process_transcription_def Let_def store_message_frame ws_send_frame)
  from f cancel c a_ref t_ref turn show ?thesis by blast
qed

theorem interruption_performed_witness:
  "agent_is_responding speaking_session
   \<and> INTERRUPTION_DEBOUNCE_MS \<le> clock answering_env - last_interruption_time speaking_session
   \<and> strip ''stop'' \<noteq> []
   \<and> last_interruption_time (interrupt_current_response 2000 speaking_session) = 2000
   \<and> interruption_event (interrupt_current_response 2000 speaking_session)
   \<and> tasks (interrupt_current_response 2000 speaking_session) 1 = Cancelled
   \<and> current_tts_task (interrupt_current_response 2000 speaking_session) = None
   \<and> sent (process_transcription answering_env ''stop'' speaking_session)
       = [Interrupt, Transcription ''stop'']"
proof -
  have a: "agent_is_responding speaking_session"
    by (simp add: speaking_session_def new_session_def agent_is_responding_def active_def
          task_done_def)
  have b: "INTERRUPTION_DEBOUNCE_MS
             \<le> clock answering_env - last_interruption_time speaking_session"
    by (simp add: speaking_session_def new_session_def answering_env_def
          INTERRUPTION_DEBOUNCE_MS_def)
  have c: "strip ''stop'' \<noteq> []"
    by (simp add: strip_def is_space_def)
  have d: "clock answering_env = 2000 \<and> current_tts_task speaking_session = Some 1
           \<and> current_agent_task speaking_session = None
           \<and> tasks speaking_session 1 = Pending \<and> sent speaking_session = []
           \<and> active speaking_session (Some 1)"
    by (simp add: speaking_session_def new_session_def answering_env_def active_def
          task_done_def)
  from interruption_performed [OF a b c] d
  have "last_interruption_time (interrupt_current_response 2000 speaking_session) = 2000
   \<and> interruption_event (interrupt_current_response 2000 speaking_session)
   \<and> tasks (interrupt_current_response 2000 speaking_session) 1 = Cancelled
   \<and> current_tts_task (interrupt_current_response 2000 speaking_session) = None
   \<and> sent (process_transcription answering_env ''stop'' speaking_session)
       = [Interrupt, Transcription ''stop'']"
    by simp
  with a b c show ?thesis by blast
qed

subsection \<open>Turns of the Response Pipeline\<close>

lemma get_recent_memories_returns:
  "\<exists>ms. get_recent_memories b cid limit = Inr ms"
  by (simp add: get_recent_memories_def try_except_def and_then_def split: sum.splits)

lemma turn_taken_up:
  assumes "strip user_text \<noteq> []"
      and "\<not> agent_is_responding s" and "\<not> interruption_event s"
      and "get_recent_memories (backend env) (conversation_id s) 20 = Inr recent"
  shows "process_transcription env user_text s =
           (case agent env \<lparr>user_input = user_text, state_conversation_id = conversation_id s,
                             conversation_history = map (\<lambda>mem. (mem_sender mem, mem_text mem)) recent\<rparr> of
              Await_cancelled \<Rightarrow>
                (store_message env user_text ''user'' (ws_send (Transcription user_text) s))
                  \<lparr>interruption_event := False\<rparr>
            | Raised e \<Rightarrow>
                agent_error env
                  ((store_message env user_text ''user'' (ws_send (Transcription user_text) s))
                     \<lparr>interruption_event := False\<rparr>)
            | Returned result \<Rightarrow>
                respond env result
                  ((store_message env user_text ''user'' (ws_send (Transcription user_text) s))
                     \<lparr>interruption_event := False\<rparr>))"
  using assms
  by (simp add: process_transcription_def Let_def interrupt_idle store_message_frame ws_send_frame)

lemma agent_error_effect:
  assumes "generate_audio (speak env) error_response 1500 5 = (chunks, failure)"
  shows "sent (agent_error env s) =
           sent s @ [Agent_response error_response, Tts_start] @ map Audio chunks
             @ (case failure of None \<Rightarrow> [Tts_end] | Some e \<Rightarrow> [])"
    and "memory (agent_error env s) = memory s"
  using assms
  by (simp_all add: agent_error_def Let_def ws_send_def forward_chunks_def split: option.splits)

lemma synthesize_plain:
  assumes "generate_audio (speak env) text 1500 5 = (chunks, None)"
      and "interruption env = None"
  shows "sent (synthesize env text s) = sent s @ [Tts_start] @ map Audio chunks @ [Tts_end]"
    and "memory (synthesize env text s) = memory s"
  using assms
  by (simp_all add: synthesize_def Let_def ws_send_def forward_chunks_def)


text \<open>
  Claim C4. A turn that is taken up with no response active and no interruption pending,
  that nothing interrupts, and whose synthesis stream runs to its end sends exactly the
  \<^verbatim>\<open>transcription\<close>, the \<^verbatim>\<open>agent_response\<close>, \<^verbatim>\<open>tts_start\<close>, the audio chunks and \<^verbatim>\<open>tts_end\<close>,
  in this order; the response is the text of the Reasoning Service, or the fixed reply when
  the reasoning call raises.
\<close>

theorem completed_turn_frames:
  assumes "strip user_text \<noteq> []"
      and "\<not> agent_is_responding s" and "\<not> interruption_event s"
      and "interruption env = None"
      and "get_recent_memories (backend env) (conversation_id s) 20 = Inr recent"
  shows "(agent env \<lparr>user_input = user_text, state_conversation_id = conversation_id s,
            conversation_history = map (\<lambda>mem. (mem_sender mem, mem_text mem)) recent\<rparr>
            = Returned result
          \<and> generate_audio (speak env)
               (dict_get result ''response'' ''I'm sorry, I couldn't process that request.'')
               1500 5 = (chunks, None)
          \<longrightarrow> sent (process_transcription env user_text s) =
                sent s @ [Transcription user_text,
                          Agent_response
                            (dict_get result ''response''
                               ''I'm sorry, I couldn't process that request.''),
                          Tts_start] @ map Audio chunks @ [Tts_end])
       \<and> (agent env \<lparr>user_input = user_text, state_conversation_id = conversation_id s,
            conversation_history = map (\<lambda>mem. (mem_sender mem, mem_text mem)) recent\<rparr>
            = Raised e
          \<and> generate_audio (speak env) error_response 1500 5 = (chunks, None)
          \<longrightarrow> sent (process_transcription env user_text s) =
                sent s @ [Transcription user_text, Agent_response error_response, Tts_start]
                  @ map Audio chunks @ [Tts_end])"
  using assms
  by (auto simp: turn_taken_up agent_error_effect respond_def Let_def synthesize_plain
        store_message_frame ws_send_frame)

lemma new_session_quiet:
  "\<not> agent_is_responding (new_session cid)" "\<not> interruption_event (new_session cid)"
  "conversation_id (new_session cid) = cid" "sent (new_session cid) = []"
  "memory (new_session cid) = []"
  by (simp_all add: new_session_def agent_is_responding_def active_def)

lemma strip_hello: "strip ''hello'' \<noteq> []"
  by (simp add: strip_def is_space_def)

lemma working_backend_recent:
  "get_recent_memories working_backend cid 20 = Inr []"
  by (simp add: get_recent_memories_def working_backend_def try_except_def and_then_def
        py_take_def)

lemma speak_hello_there:
  "generate_audio (\<lambda>_. ([''ab'', ''cd''], None))
     (dict_get [(''response'', ''Hello there.'')] ''response''
        ''I'm sorry, I couldn't process that request.'') 1500 5 = ([''ab'', ''cd''], None)"
  by code_simp

theorem completed_turn_frames_witness:
  "strip ''hello'' \<noteq> []
   \<and> \<not> agent_is_responding (new_session ''c1'') \<and> \<not> interruption_event (new_session ''c1'')
   \<and> interruption answering_env = None
   \<and> get_recent_memories (backend answering_env) (conversation_id (new_session ''c1'')) 20 = Inr []
   \<and> sent (process_transcription answering_env ''hello'' (new_session ''c1'')) =
       [Transcription ''hello'', Agent_response ''Hello there.'', Tts_start,
        Audio ''ab'', Audio ''cd'', Tts_end]"
proof -
  have a: "strip ''hello'' \<noteq> []" by (rule strip_hello)
  have b: "\<not> agent_is_responding (new_session ''c1'')" by (rule new_session_quiet)
  have c: "\<not> interruption_event (new_session ''c1'')" by (rule new_session_quiet)
  have d: "interruption answering_env = None" by (simp add: answering_env_def)
  have e: "get_recent_memories (backend answering_env) (conversation_id (new_session ''c1'')) 20
             = Inr []"
    by (simp add: answering_env_def working_backend_recent)
  have f: "agent answering_env \<lparr>user_input = ''hello'',
             state_conversation_id = conversation_id (new_session ''c1''),
             conversation_history = map (\<lambda>mem. (mem_sender mem, mem_text mem)) []\<rparr>
           = Returned [(''response'', ''Hello there.'')]"
    by (simp add: answering_env_def)
  have g: "generate_audio (speak answering_env)
             (dict_get [(''response'', ''Hello there.'')] ''response''
                ''I'm sorry, I couldn't process that request.'') 1500 5 = ([''ab'', ''cd''], None)"
    using speak_hello_there by (simp add: answering_env_def)
  have h: "dict_get [(''response'', ''Hello there.'')] ''response''
             ''I'm sorry, I couldn't process that request.'' = ''Hello there.''"
    by (simp add: dict_get_def)
  from completed_turn_frames [OF a b c d e, of "[(''response'', ''Hello there.'')]"
      "[''ab'', ''cd'']"] f g
  have "sent (process_transcription answering_env ''hello'' (new_session ''c1'')) =
       sent (new_session ''c1'') @ [Transcription ''hello'',
          Agent_response (dict_get [(''response'', ''Hello there.'')] ''response''
             ''I'm sorry, I couldn't process that request.''), Tts_start]
        @ map Audio [''ab'', ''cd''] @ [Tts_end]"
    by blast
  then have "sent (process_transcription answering_env ''hello'' (new_session ''c1'')) =
       [Transcription ''hello'', Agent_response ''Hello there.'', Tts_start,
        Audio ''ab'', Audio ''cd'', Tts_end]"
    by (simp add: h new_session_quiet)
  with a b c d e show ?thesis by blast
qed

text \<open>
  Claim C3, at a turn whose reasoning call raises. The fixed reply is sent as
  \<^verbatim>\<open>agent_response\<close> and spoken between \<^verbatim>\<open>tts_start\<close> and \<^verbatim>\<open>tts_end\<close>, and the turn returns to
  the queue consumer; but the Memory Store, which takes every write here, holds the user's
  utterance only: the handler of lines 250 to 274 never calls \<^verbatim>\<open>add_memory\<close>.
\<close>

theorem fallback_reply_not_persisted:
  "sent (process_transcription failing_env ''hello'' (new_session ''c1'')) =
     [Transcription ''hello'', Agent_response error_response, Tts_start,
      Audio ''ab'', Audio ''cd'', Tts_end]
   \<and> map entry_sender
        (memory (process_transcription failing_env ''hello'' (new_session ''c1''))) = [''user'']
   \<and> map entry_text
        (memory (process_transcription failing_env ''hello'' (new_session ''c1''))) = [''hello'']
   \<and> accepts (backend failing_env) ''c1'' error_response ''agent'' None"
  by code_simp



lemma working_backend_accepts:
  "accepts working_backend cid text sender None"
  by (simp add: accepts_def working_backend_def)



subsection \<open>Transcripts that arrive during a response\<close>

lemma synthesize_references:
  "current_agent_task (synthesize env text s) = current_agent_task s"
  "current_tts_task (synthesize env text s) = current_tts_task s"
  by (auto simp: synthesize_def Let_def ws_send_def forward_chunks_def
        split: prod.splits option.splits interruption.splits exn.splits)

lemma respond_references:
  "current_agent_task (respond env result s) = current_agent_task s"
  "current_tts_task (respond env result s) = current_tts_task s"
  by (simp_all add: respond_def Let_def synthesize_references ws_send_def store_message_frame)

lemma agent_error_references:
  "current_agent_task (agent_error env s) = current_agent_task s"
  "current_tts_task (agent_error env s) = current_tts_task s"
  by (simp_all add: agent_error_def Let_def ws_send_def forward_chunks_def
        split: prod.splits option.splits)

text \<open>
  The session starts with both task references \<^verbatim>\<open>None\<close>, and a turn leaves them so: the
  coordinator then finds nothing to interrupt, whatever the clock says.
\<close>

lemma turn_keeps_references:
  assumes "current_agent_task s = None" and "current_tts_task s = None"
  shows "current_agent_task (process_transcription env user_text s) = None"
    and "current_tts_task (process_transcription env user_text s) = None"
    and "interrupt_current_response t (process_transcription env user_text s)
           = process_transcription env user_text s"
proof -
  have idle: "\<not> agent_is_responding s"
    using assms by (simp add: agent_is_responding_def active_def)
  show a: "current_agent_task (process_transcription env user_text s) = None"
    using assms
    by (simp add: process_transcription_def Let_def interrupt_idle [OF idle]
          respond_references agent_error_references store_message_frame ws_send_def
          split: sum.splits awaited.splits)
  show b: "current_tts_task (process_transcription env user_text s) = None"
    using assms
    by (simp add: process_transcription_def Let_def interrupt_idle [OF idle]
          respond_references agent_error_references store_message_frame ws_send_def
          split: sum.splits awaited.splits)
  show "interrupt_current_response t (process_transcription env user_text s)
           = process_transcription env user_text s"
    by (rule interrupt_idle) (simp add: agent_is_responding_def active_def a b)
qed

text \<open>
  Claim C5, at three final transcripts of which the second and the third arrive while the
  response to the first is being produced. The consumer takes each from the queue when the
  turn before it has returned, and the task references of the session are \<^verbatim>\<open>None\<close> then:
  whether the two are 600 ms apart or 100 ms apart, no \<^verbatim>\<open>interrupt\<close> is sent and nothing
  is cancelled; each transcript gets a full turn and \<^verbatim>\<open>last_interruption_time\<close> stays 0.
\<close>

theorem transcripts_never_interrupt:
  "sent (snd (consume (turn_at 2900) (consume (turn_at 2300) (consume (turn_at 2000)
           (three_transcripts, new_session ''c1'')))))
     = [Transcription ''hello'', Agent_response ''Hello there.'', Tts_start,
        Audio ''ab'', Audio ''cd'', Tts_end,
        Transcription ''wait'', Agent_response ''Hello there.'', Tts_start,
        Audio ''ab'', Audio ''cd'', Tts_end,
        Transcription ''actually cancel that'', Agent_response ''Hello there.'', Tts_start,
        Audio ''ab'', Audio ''cd'', Tts_end]
   \<and> count_list (sent (snd (consume (turn_at 2900) (consume (turn_at 2300)
          (consume (turn_at 2000) (three_transcripts, new_session ''c1'')))))) Interrupt = 0
   \<and> count_list (sent (snd (consume (turn_at 2400) (consume (turn_at 2300)
          (consume (turn_at 2000) (three_transcripts, new_session ''c1'')))))) Interrupt = 0
   \<and> last_interruption_time (snd (consume (turn_at 2900) (consume (turn_at 2300)
          (consume (turn_at 2000) (three_transcripts, new_session ''c1''))))) = 0
   \<and> current_agent_task (snd (consume (turn_at 2000) (three_transcripts, new_session ''c1'')))
       = None
   \<and> current_tts_task (snd (consume (turn_at 2000) (three_transcripts, new_session ''c1'')))
       = None"
  by code_simp

subsection \<open>The message loop\<close>

text \<open>
  Claim C6, at a text frame that decodes to a JSON value other than an object. A frame that
  does not decode is passed over and the \<^verbatim>\<open>ping\<close> behind it is answered. The frame \<^verbatim>\<open>[]\<close>
  decodes to a list, \<^verbatim>\<open>data.get\<close> raises \<^verbatim>\<open>AttributeError\<close>, which the clause for
  \<^verbatim>\<open>json.JSONDecodeError\<close> does not catch: the loop is left through the handler of line 392,
  the \<^verbatim>\<open>ping\<close> behind it is never read, and the session is torn down.
\<close>

theorem non_object_frame_ends_loop:
  "fst (message_loop sample_loads audio_accepted
          [Text_message ''not json'', Text_message ping_text] (new_session ''c1'')) = Next_round
   \<and> sent (snd (message_loop sample_loads audio_accepted
          [Text_message ''not json'', Text_message ping_text] (new_session ''c1''))) = [Pong]
   \<and> fst (message_loop sample_loads audio_accepted
          [Text_message ''[]'', Text_message ping_text] (new_session ''c1''))
       = Loop_exception (Exception ''AttributeError'')
   \<and> sent (snd (message_loop sample_loads audio_accepted
          [Text_message ''[]'', Text_message ping_text] (new_session ''c1''))) = []"
  by code_simp

subsection \<open>The Transcription Source\<close>

lemma on_message_eq:
  "on_message event q =
     (case event_text event of
        Some sentence \<Rightarrow> if sentence \<noteq> [] \<and> event_final event then q @ [sentence] else q
      | None \<Rightarrow> q)"
  by (auto simp: on_message_def event_text_def event_final_def
        split: stt_event.splits option.splits list.splits)

lemma deliver_only_final:
  "x \<in> set (fold on_message events q) \<Longrightarrow>
     x \<in> set q \<or> (x \<noteq> [] \<and> (\<exists>event \<in> set events. event_final event \<and> event_text event = Some x))"
proof (induction events arbitrary: q)
  case Nil
  then show ?case by simp
next
  case (Cons ev events)
  from Cons.prems have "x \<in> set (fold on_message events (on_message ev q))" by simp
  from Cons.IH [OF this] show ?case
    by (auto simp: on_message_eq split: option.splits if_splits)
qed

text \<open>
  Claim C9. The handler puts a transcript on the Transcription Queue only when it is not
  empty and its event is marked final: every entry of the queue, and so every entry the
  consumer takes from it, is the non-empty transcript of a final event; an interim result
  and an empty transcript leave the queue as it is.
\<close>

theorem only_final_transcripts_enqueued:
  "(\<forall>x \<in> set (deliver events []).
       x \<noteq> [] \<and> (\<exists>event \<in> set events. event_final event \<and> event_text event = Some x))
   \<and> (\<forall>x rest. get_transcription (deliver events []) = (Some x, rest) \<longrightarrow>
         x \<noteq> [] \<and> (\<exists>event \<in> set events. event_final event \<and> event_text event = Some x))
   \<and> (\<forall>event q. \<not> event_final event \<longrightarrow> on_message event q = q)
   \<and> (\<forall>event q. event_text event = Some [] \<longrightarrow> on_message event q = q)"
proof -
  have a: "\<forall>x \<in> set (deliver events []).
       x \<noteq> [] \<and> (\<exists>event \<in> set events. event_final event \<and> event_text event = Some x)"
    using deliver_only_final [of _ events "[]"] by (auto simp: deliver_def)
  have b: "\<forall>x rest. get_transcription (deliver events []) = (Some x, rest) \<longrightarrow>
         x \<in> set (deliver events [])"
    by (auto simp: get_transcription_def split: list.splits)
  have c: "\<forall>event q. \<not> event_final event \<longrightarrow> on_message event q = q"
    by (simp add: on_message_eq split: option.splits)
  have d: "\<forall>event q. event_text event = Some [] \<longrightarrow> on_message event q = q"
    by (simp add: on_message_eq)
  from a b c d show ?thesis by blast
qed

lemma sample_events_queue:
  "deliver sample_events [] = [''what is my order status'']"
  by code_simp

theorem only_final_transcripts_enqueued_witness:
  "get_transcription (deliver sample_events []) = (Some ''what is my order status'', [])
   \<and> (\<exists>event \<in> set sample_events.
         event_final event \<and> event_text event = Some ''what is my order status'')"
proof -
  have a: "get_transcription (deliver sample_events []) = (Some ''what is my order status'', [])"
    by (simp add: sample_events_queue get_transcription_def)
  from only_final_transcripts_enqueued [of sample_events] a
  have "\<exists>event \<in> set sample_events.
         event_final event \<and> event_text event = Some ''what is my order status''"
    by blast
  with a show ?thesis by blast
qed

subsection \<open>The Memory Store\<close>

text \<open>
  Claim C10. \<^verbatim>\<open>add_memory\<close> and \<^verbatim>\<open>get_recent_memories\<close> always return to their caller: no
  exception leaves them. When the store is not available, or the embedding or the write
  raises, \<^verbatim>\<open>add_memory\<close> returns \<^verbatim>\<open>None\<close> and stores nothing; when the store is not available,
  or the search raises, or an item found cannot be read, \<^verbatim>\<open>get_recent_memories\<close> returns the
  empty list.
\<close>

theorem memory_store_never_raises:
  "\<not> isl (fst (add_memory b stored cid text sender md))
   \<and> \<not> isl (get_recent_memories b cid limit)
   \<and> (\<not> available b \<or> isl (create_embedding b text)
        \<or> aput b (new_entry b cid text sender md) \<noteq> None
      \<longrightarrow> add_memory b stored cid text sender md = (Inr None, stored))
   \<and> (\<not> available b \<or> isl (asearch b cid limit)
        \<or> (\<exists>items. asearch b cid limit = Inr items \<and> isl (format_items items))
      \<longrightarrow> get_recent_memories b cid limit = Inr [])"
proof -
  have a: "\<not> isl (fst (add_memory b stored cid text sender md))"
    by (simp add: add_memory_cases)
  have b: "\<not> isl (get_recent_memories b cid limit)"
    using get_recent_memories_returns [of b cid limit] by auto
  have c: "\<not> available b \<or> isl (create_embedding b text)
        \<or> aput b (new_entry b cid text sender md) \<noteq> None
      \<longrightarrow> add_memory b stored cid text sender md = (Inr None, stored)"
    by (auto simp: add_memory_cases accepts_def)
  have d: "\<not> available b \<or> isl (asearch b cid limit)
        \<or> (\<exists>items. asearch b cid limit = Inr items \<and> isl (format_items items))
      \<longrightarrow> get_recent_memories b cid limit = Inr []"
    by (auto simp: get_recent_memories_def try_except_def and_then_def isl_def
          split: sum.splits)
  from a b c d show ?thesis by blast
qed

theorem memory_store_never_raises_witness:
  "aput failing_backend (new_entry failing_backend ''c1'' ''hello'' ''user'' None) \<noteq> None
   \<and> add_memory failing_backend [] ''c1'' ''hello'' ''user'' None = (Inr None, [])
   \<and> (\<exists>items. asearch failing_backend ''c1'' 20 = Inr items \<and> isl (format_items items))
   \<and> get_recent_memories failing_backend ''c1'' 20 = Inr []"
proof -
  have a: "aput failing_backend (new_entry failing_backend ''c1'' ''hello'' ''user'' None) \<noteq> None"
    by (simp add: failing_backend_def)
  have b: "\<exists>items. asearch failing_backend ''c1'' 20 = Inr items \<and> isl (format_items items)"
    by (simp add: failing_backend_def)
  from memory_store_never_raises [of failing_backend "[]" "''c1''" "''hello''" "''user''" None 20]
    a b
  have "add_memory failing_backend [] ''c1'' ''hello'' ''user'' None = (Inr None, [])
        \<and> get_recent_memories failing_backend ''c1'' 20 = Inr []"
    by blast
  with a b show ?thesis by blast
qed

subsection \<open>The text handed to speech synthesis\<close>

lemma greedy_Some:
  "greedy f lo k = Some r \<Longrightarrow> \<exists>j. f j = Some r"
  by (induction k) (auto split: if_splits option.splits)

lemma sentence_end_group:
  assumes "re_match sentence_end prev s = Some (n, g)"
  shows "g = take n s"
proof -
  from assms obtain sp where m: "rmatch sentence_end prev s 0 0 None = Some (n, sp)"
    and g: "g = (case sp of None \<Rightarrow> [] | Some (a, b) \<Rightarrow> take (b - a) (drop a s))"
    by (auto simp: re_match_def split: option.splits)
  from m have "\<exists>k j. (n, sp) = (k + j, Some (0, k + j))"
    by (auto simp: sentence_end_def group_def dest!: greedy_Some)
  then have "sp = Some (0, n)" by auto
  with g show ?thesis by simp
qed

lemma concat_re_split:
  "concat (re_split sentence_end acc prev s) = acc @ s"
proof (induction sentence_end acc prev s rule: re_split.induct)
  case (1 acc prev)
  then show ?case by simp
next
  case (2 acc prev c cs)
  show ?case
  proof (cases "re_match sentence_end prev (c # cs)")
    case None
    with 2 show ?thesis by simp
  next
    case (Some ng)
    obtain n g where ng: "ng = (n, g)" by (cases ng)
    with Some have m: "re_match sentence_end prev (c # cs) = Some (n, g)" by simp
    from sentence_end_group [OF m] have g: "g = take n (c # cs)" .
    show ?thesis
    proof (cases "n = 0")
      case True
      with 2 m show ?thesis by simp
    next
      case False
      with 2(3) [OF m refl] m g show ?thesis by simp
    qed
  qed
qed

lemma concat_combine:
  "\<exists>rest. concat xs = concat (combine xs) @ rest"
  by (induction xs rule: combine.induct) auto

lemma take_fitting_prefix:
  "\<exists>n. take_fitting r xs mc = r @ concat (take n xs)"
proof (induction xs arbitrary: r)
  case Nil
  then show ?case by simp
next
  case (Cons x xs)
  show ?case
  proof (cases "int (length (r @ x)) \<le> mc")
    case True
    from Cons [of "r @ x"] obtain n where "take_fitting (r @ x) xs mc = (r @ x) @ concat (take n xs)"
      by blast
    with True have "take_fitting r (x # xs) mc = r @ concat (take (Suc n) (x # xs))" by simp
    then show ?thesis by blast
  next
    case False
    then have "take_fitting r (x # xs) mc = r @ concat (take 0 (x # xs))" by simp
    then show ?thesis by blast
  qed
qed

lemma take_fitting_length:
  "int (length r) \<le> mc \<Longrightarrow> int (length (take_fitting r xs mc)) \<le> mc"
  by (induction xs arbitrary: r) auto

lemma py_take_take:
  "\<exists>m. py_take n xs = take m xs"
  by (auto simp: py_take_def)

lemma concat_take_prefix:
  "\<exists>rest. concat xs = concat (take n xs) @ rest"
proof -
  have "concat xs = concat (take n xs) @ concat (drop n xs)"
    by (metis append_take_drop_id concat_append)
  then show ?thesis by blast
qed

lemma rstrip_take:
  "rstrip s = take (length (rstrip s)) s"
proof -
  have "rev s = takeWhile is_space (rev s) @ dropWhile is_space (rev s)"
    by simp
  then have "s = rev (dropWhile is_space (rev s)) @ rev (takeWhile is_space (rev s))"
    by (metis rev_append rev_rev_ident)
  then have "s = rstrip s @ rev (takeWhile is_space (rev s))"
    by (simp add: rstrip_def)
  then show ?thesis
    by (metis append_eq_conv_conj)
qed

lemma rfind_from_char:
  "rfind_from s c i r = j \<Longrightarrow> j \<noteq> r \<Longrightarrow>
     int i \<le> j \<and> nat j - i < length s \<and> s ! (nat j - i) = c"
proof (induction s arbitrary: i r)
  case Nil
  then show ?case by simp
next
  case (Cons x xs)
  let ?r = "if x = c then int i else r"
  from Cons.prems have j: "rfind_from xs c (Suc i) ?r = j" by simp
  show ?case
  proof (cases "j = ?r")
    case True
    with Cons.prems show ?thesis by (auto split: if_splits)
  next
    case False
    from Cons.IH [OF j False]
    have "int (Suc i) \<le> j" "nat j - Suc i < length xs" "xs ! (nat j - Suc i) = c"
      by auto
    moreover from this have "nat j - i = Suc (nat j - Suc i)" by linarith
    ultimately show ?thesis by auto
  qed
qed

lemma rfind_char:
  assumes "0 \<le> rfind s c"
  shows "nat (rfind s c) < length s \<and> s ! nat (rfind s c) = c"
  using rfind_from_char [of s c 0 "-1" "rfind s c"] assms by (simp add: rfind_def)

lemma kept_is_prefix:
  assumes "kept = take_fitting [] (py_take max_sentences (combine (re_split sentence_end [] None cleaned))) max_chars"
  shows "(\<exists>n. kept = concat (take n (combine (re_split sentence_end [] None cleaned))))
       \<and> kept = take (length kept) cleaned"
proof -
  let ?ss = "combine (re_split sentence_end [] None cleaned)"
  obtain m where m: "py_take max_sentences ?ss = take m ?ss"
    using py_take_take by blast
  obtain n where n: "kept = concat (take n (take m ?ss))"
    using take_fitting_prefix [of "[]" "take m ?ss" max_chars] assms m by auto
  then have k: "kept = concat (take (min n m) ?ss)" by simp
  obtain r1 where "concat ?ss = kept @ r1"
    using concat_take_prefix [of ?ss "min n m"] k by auto
  moreover obtain r2 where "concat (re_split sentence_end [] None cleaned) = concat ?ss @ r2"
    using concat_combine by blast
  ultimately have "cleaned = kept @ r1 @ r2"
    by (simp add: concat_re_split)
  then have "kept = take (length kept) cleaned" by simp
  with k show ?thesis by blast
qed

lemma synthesize_frame:
  "memory (synthesize env text s) = memory s"
  "\<exists>frames. sent (synthesize env text s) = sent s @ frames"
  by (auto simp: synthesize_def Let_def ws_send_def forward_chunks_def
        split: prod.splits option.splits interruption.splits exn.splits)

lemma respond_effect:
  assumes "interruption env \<noteq> Some Signal_after_reason"
      and "response_text =
             dict_get result ''response'' ''I'm sorry, I couldn't process that request.''"
  shows "memory (respond env result s) = memory (store_message env response_text ''agent'' s)"
    and "\<exists>frames. sent (respond env result s) = sent s @ Agent_response response_text # frames"
proof -
  show "memory (respond env result s) = memory (store_message env response_text ''agent'' s)"
    using assms by (simp add: respond_def Let_def synthesize_frame ws_send_frame)
  show "\<exists>frames. sent (respond env result s) = sent s @ Agent_response response_text # frames"
  proof (cases "interruption env = Some Signal_before_synthesis")
    case True
    with assms show ?thesis
      by (simp add: respond_def Let_def ws_send_frame store_message_frame)
  next
    case False
    obtain frames where
      "sent (synthesize env response_text
               (ws_send (Agent_response response_text)
                  (store_message env response_text ''agent'' s)))
       = sent (ws_send (Agent_response response_text)
                  (store_message env response_text ''agent'' s)) @ frames"
      using synthesize_frame(2) by blast
    with False assms show ?thesis
      by (simp add: respond_def Let_def ws_send_frame store_message_frame)
  qed
qed


lemma take_fitting_exact:
  "int (length r) \<le> mc \<Longrightarrow>
     \<exists>n\<le>length xs. take_fitting r xs mc = r @ concat (take n xs)
        \<and> (n < length xs \<longrightarrow> mc < int (length (r @ concat (take (Suc n) xs))))"
proof (induction xs arbitrary: r)
  case Nil
  then show ?case by simp
next
  case (Cons x xs)
  show ?case
  proof (cases "int (length (r @ x)) \<le> mc")
    case True
    from Cons.IH [OF True] obtain n where n: "n \<le> length xs"
      "take_fitting (r @ x) xs mc = (r @ x) @ concat (take n xs)"
      "n < length xs \<longrightarrow> mc < int (length ((r @ x) @ concat (take (Suc n) xs)))"
      by blast
    have "Suc n \<le> length (x # xs)" using n(1) by simp
    moreover have "take_fitting r (x # xs) mc = r @ concat (take (Suc n) (x # xs))"
      using True n(2) by simp
    moreover have "Suc n < length (x # xs) \<longrightarrow>
        mc < int (length (r @ concat (take (Suc (Suc n)) (x # xs))))"
      using n(3) by simp
    ultimately show ?thesis by blast
  next
    case False
    have "0 \<le> length (x # xs)" by simp
    moreover have "take_fitting r (x # xs) mc = r @ concat (take 0 (x # xs))"
      using False by simp
    moreover have "0 < length (x # xs) \<longrightarrow>
        mc < int (length (r @ concat (take (Suc 0) (x # xs))))"
      using False by simp
    ultimately show ?thesis by blast
  qed
qed

lemma rfind_from_ge:
  "r \<le> int i \<Longrightarrow> r \<le> rfind_from s c i r"
proof (induction s arbitrary: i r)
  case Nil
  then show ?case by simp
next
  case (Cons x xs)
  have "(if x = c then int i else r) \<le> rfind_from xs c (Suc i) (if x = c then int i else r)"
    using Cons.prems by (intro Cons.IH) auto
  with Cons.prems show ?case by (auto split: if_splits)
qed

lemma rfind_from_last:
  "k < length s \<Longrightarrow> s ! k = c \<Longrightarrow> int (i + k) \<le> rfind_from s c i r"
proof (induction s arbitrary: i r k)
  case Nil
  then show ?case by simp
next
  case (Cons x xs)
  show ?case
  proof (cases k)
    case 0
    with Cons.prems have "x = c" by simp
    then have "rfind_from (x # xs) c i r = rfind_from xs c (Suc i) (int i)" by simp
    moreover have "int i \<le> rfind_from xs c (Suc i) (int i)"
      by (rule rfind_from_ge) simp
    ultimately show ?thesis using 0 by simp
  next
    case (Suc k')
    with Cons.prems have "k' < length xs" "xs ! k' = c" by simp_all
    from Cons.IH [OF this, of "Suc i" "if x = c then int i else r"] Suc
    show ?thesis by simp
  qed
qed

lemma rfind_last:
  assumes "k < length s" and "s ! k = c"
  shows "int k \<le> rfind s c"
  using rfind_from_last [OF assms, of 0 "- 1"] by (simp add: rfind_def)

text \<open>
  Claim C7, as amended. Let the cleaned form of a response text be longer than the budget
  \<open>max_chars\<close>. Of the leading whole sentences on offer (the first \<open>max_sentences\<close> of the
  cleaned text) let \<open>kept\<close> be those that fit the budget together: sentences are taken up to
  the first one that would carry the text past the budget. If \<open>kept\<close> has at least 100
  characters, the text handed to speech synthesis is \<open>kept\<close> without its trailing white
  space: a prefix of the cleaned text made of whole sentences and no longer than the
  budget. Otherwise the cleaned text is cut and the marker \<^verbatim>\<open>...\<close> put in place of the rest:
  if the last space among the first \<open>max_chars\<close> characters lies beyond 80 percent of the
  budget, the cut is at that space; if no space lies beyond 80 percent of the budget, the
  cut is behind the first \<open>max_chars\<close> characters, inside a word or not. The response text
  itself, not shortened, is what the turn sends in \<^verbatim>\<open>agent_response\<close> and what the Memory
  Store is given.
\<close>

theorem tts_text_shortened:
  assumes "text \<noteq> []" and "0 \<le> max_chars"
      and "cleaned = clean_text_for_tts text"
      and "max_chars < int (length cleaned)"
      and "sentences = combine (re_split sentence_end [] None cleaned)"
      and "offered = py_take max_sentences sentences"
      and "kept = take_fitting [] offered max_chars"
      and "tts_text = create_short_tts_version text max_chars max_sentences"
  shows "(0 \<le> max_sentences \<longrightarrow> offered = take (nat max_sentences) sentences)
       \<and> (\<exists>n\<le>length offered. kept = concat (take n offered)
              \<and> int (length kept) \<le> max_chars
              \<and> (n < length offered \<longrightarrow>
                    max_chars < int (length (concat (take (Suc n) offered)))))
       \<and> (100 \<le> length kept \<longrightarrow>
            tts_text = rstrip kept
            \<and> (\<exists>n. kept = concat (take n sentences))
            \<and> (\<exists>m. tts_text = take m cleaned)
            \<and> int (length tts_text) \<le> max_chars)
       \<and> (length kept < 100 \<longrightarrow>
            (\<forall>i. i < nat max_chars \<and> cleaned ! i = CHR '' ''
                 \<and> (\<forall>j. i < j \<and> j < nat max_chars \<longrightarrow> cleaned ! j \<noteq> CHR '' '')
                 \<and> 4 * max_chars < 5 * int i
               \<longrightarrow> tts_text = take i cleaned @ ''...'')
            \<and> ((\<forall>j. j < nat max_chars \<and> cleaned ! j = CHR '' '' \<longrightarrow> 5 * int j \<le> 4 * max_chars)
               \<longrightarrow> tts_text = take (nat max_chars) cleaned @ ''...''))
       \<and> generate_audio source text max_chars max_sentences =
           (if tts_text = [] then ([], None)
            else (filter (\<lambda>audio_chunk. audio_chunk \<noteq> []) (fst (source tts_text)),
                  snd (source tts_text)))
       \<and> (\<forall>env user_text s recent result.
             strip user_text \<noteq> [] \<and> \<not> agent_is_responding s \<and> \<not> interruption_event s
             \<and> get_recent_memories (backend env) (conversation_id s) 20 = Inr recent
             \<and> agent env \<lparr>user_input = user_text, state_conversation_id = conversation_id s,
                   conversation_history = map (\<lambda>mem. (mem_sender mem, mem_text mem)) recent\<rparr>
                 = Returned result
             \<and> dict_get result ''response'' ''I'm sorry, I couldn't process that request.'' = text
             \<and> interruption env \<noteq> Some Signal_after_reason
             \<longrightarrow> Agent_response text \<in> set (sent (process_transcription env user_text s))
                 \<and> (accepts (backend env) (conversation_id s) text ''agent'' None \<longrightarrow>
                      new_entry (backend env) (conversation_id s) text ''agent'' None
                        \<in> set (memory (process_transcription env user_text s))
                      \<and> entry_text
                           (new_entry (backend env) (conversation_id s) text ''agent'' None)
                          = text))"
proof -
  have off: "0 \<le> max_sentences \<longrightarrow> offered = take (nat max_sentences) sentences"
    using assms(6) by (simp add: py_take_def)
  have kp: "(\<exists>n. kept = concat (take n sentences)) \<and> kept = take (length kept) cleaned"
    using kept_is_prefix [of kept max_sentences cleaned max_chars] assms(5,6,7) by simp
  have kl: "int (length kept) \<le> max_chars"
    using take_fitting_length [of "[]" max_chars] assms(2,7) by simp
  have exact: "\<exists>n\<le>length offered. kept = concat (take n offered)
              \<and> int (length kept) \<le> max_chars
              \<and> (n < length offered \<longrightarrow>
                    max_chars < int (length (concat (take (Suc n) offered))))"
  proof -
    have "int (length ([] :: string)) \<le> max_chars" using assms(2) by simp
    from take_fitting_exact [OF this, of offered]
    obtain n where "n \<le> length offered" "kept = concat (take n offered)"
      "n < length offered \<longrightarrow> max_chars < int (length (concat (take (Suc n) offered)))"
      using assms(7) by auto
    with kl show ?thesis by blast
  qed
  have unfold: "tts_text =
      (if kept = [] \<or> length kept < 100
       then (if 5 * rfind (py_take max_chars cleaned) CHR '' '' > 4 * max_chars
             then py_take (rfind (py_take max_chars cleaned) CHR '' '') (py_take max_chars cleaned)
                    @ ''...''
             else py_take max_chars cleaned @ ''...'')
       else rstrip kept)"
    using assms by (simp add: create_short_tts_version_def Let_def)
  have long: "100 \<le> length kept \<longrightarrow>
            tts_text = rstrip kept
            \<and> (\<exists>n. kept = concat (take n sentences))
            \<and> (\<exists>m. tts_text = take m cleaned)
            \<and> int (length tts_text) \<le> max_chars"
  proof
    assume h: "100 \<le> length kept"
    then have r: "tts_text = rstrip kept" using unfold by auto
    have "rstrip kept = take (length (rstrip kept)) kept" by (rule rstrip_take)
    also have "\<dots> = take (length (rstrip kept)) (take (length kept) cleaned)"
      using kp by simp
    finally have p: "rstrip kept = take (min (length (rstrip kept)) (length kept)) cleaned"
      by simp
    have "length (rstrip kept) \<le> length kept"
      using length_dropWhile_le [of is_space "rev kept"] by (simp add: rstrip_def)
    with kl r have l: "int (length tts_text) \<le> max_chars" by simp
    from r p have e: "\<exists>m. tts_text = take m cleaned" by blast
    from kp have n: "\<exists>n. kept = concat (take n sentences)" by blast
    from r n e l show "tts_text = rstrip kept
            \<and> (\<exists>n. kept = concat (take n sentences))
            \<and> (\<exists>m. tts_text = take m cleaned)
            \<and> int (length tts_text) \<le> max_chars"
      by blast
  qed
  let ?tr = "take (nat max_chars) cleaned"
  let ?ls = "rfind ?tr CHR '' ''"
  have trunc: "py_take max_chars cleaned = ?tr"
    using assms(2) by (simp add: py_take_def)
  have tl: "length ?tr = nat max_chars"
    using assms(2,4) by simp
  have at_space: "tts_text = take (nat ?ls) cleaned @ ''...''"
    if h: "length kept < 100" and far: "4 * max_chars < 5 * ?ls"
  proof -
    from far assms(2) have pos: "0 \<le> ?ls" by linarith
    from rfind_char [OF pos] tl have lt: "nat ?ls < nat max_chars" by simp
    have "tts_text = py_take ?ls ?tr @ ''...''"
      using unfold h far trunc by simp
    also have "py_take ?ls ?tr = take (nat ?ls) cleaned"
    proof -
      have "py_take ?ls ?tr = take (nat ?ls) ?tr"
        using pos by (simp add: py_take_def)
      also have "\<dots> = take (min (nat ?ls) (nat max_chars)) cleaned"
        by (rule take_take)
      also have "min (nat ?ls) (nat max_chars) = nat ?ls"
        using lt by (rule min_absorb1 [OF less_imp_le])
      finally show ?thesis .
    qed
    finally show ?thesis .
  qed
  have hard: "tts_text = ?tr @ ''...''"
    if h: "length kept < 100" and near: "\<not> 4 * max_chars < 5 * ?ls"
    using unfold h near trunc by simp
  have short_a: "\<forall>i. i < nat max_chars \<and> cleaned ! i = CHR '' ''
                 \<and> (\<forall>j. i < j \<and> j < nat max_chars \<longrightarrow> cleaned ! j \<noteq> CHR '' '')
                 \<and> 4 * max_chars < 5 * int i
               \<longrightarrow> tts_text = take i cleaned @ ''...''"
    if h: "length kept < 100"
  proof (intro allI impI, elim conjE)
    fix i
    assume i: "i < nat max_chars" and sp: "cleaned ! i = CHR '' ''"
      and last: "\<forall>j. i < j \<and> j < nat max_chars \<longrightarrow> cleaned ! j \<noteq> CHR '' ''"
      and far: "4 * max_chars < 5 * int i"
    have "?tr ! i = CHR '' ''" using i sp by simp
    with i tl have le: "int i \<le> ?ls" by (intro rfind_last) simp_all
    then have pos: "0 \<le> ?ls" by linarith
    from rfind_char [OF pos] tl
    have lt: "nat ?ls < nat max_chars" and ch: "?tr ! nat ?ls = CHR '' ''" by simp_all
    from lt ch have "cleaned ! nat ?ls = CHR '' ''" by simp
    with last lt have "\<not> i < nat ?ls" by blast
    with le pos have eq: "nat ?ls = i" by linarith
    from far le have "4 * max_chars < 5 * ?ls" by linarith
    from at_space [OF h this] eq show "tts_text = take i cleaned @ ''...''" by simp
  qed
  have short_b: "(\<forall>j. j < nat max_chars \<and> cleaned ! j = CHR '' '' \<longrightarrow> 5 * int j \<le> 4 * max_chars)
               \<longrightarrow> tts_text = ?tr @ ''...''"
    if h: "length kept < 100"
  proof
    assume all: "\<forall>j. j < nat max_chars \<and> cleaned ! j = CHR '' '' \<longrightarrow> 5 * int j \<le> 4 * max_chars"
    have "\<not> 4 * max_chars < 5 * ?ls"
    proof
      assume far: "4 * max_chars < 5 * ?ls"
      with assms(2) have pos: "0 \<le> ?ls" by linarith
      from rfind_char [OF pos] tl
      have lt: "nat ?ls < nat max_chars" and ch: "?tr ! nat ?ls = CHR '' ''" by simp_all
      from lt ch have "cleaned ! nat ?ls = CHR '' ''" by simp
      with all lt have "5 * int (nat ?ls) \<le> 4 * max_chars" by blast
      moreover have "int (nat ?ls) = ?ls" using pos by (rule nat_0_le)
      ultimately show False using far by linarith
    qed
    from hard [OF h this] show "tts_text = ?tr @ ''...''" .
  qed
  have short: "length kept < 100 \<longrightarrow>
            (\<forall>i. i < nat max_chars \<and> cleaned ! i = CHR '' ''
                 \<and> (\<forall>j. i < j \<and> j < nat max_chars \<longrightarrow> cleaned ! j \<noteq> CHR '' '')
                 \<and> 4 * max_chars < 5 * int i
               \<longrightarrow> tts_text = take i cleaned @ ''...'')
            \<and> ((\<forall>j. j < nat max_chars \<and> cleaned ! j = CHR '' '' \<longrightarrow> 5 * int j \<le> 4 * max_chars)
               \<longrightarrow> tts_text = take (nat max_chars) cleaned @ ''...'')"
    using short_a short_b by blast
  have gen: "generate_audio source text max_chars max_sentences =
           (if tts_text = [] then ([], None)
            else (filter (\<lambda>audio_chunk. audio_chunk \<noteq> []) (fst (source tts_text)),
                  snd (source tts_text)))"
    using assms(8) by (simp add: generate_audio_def Let_def split: prod.splits)
  have turn: "\<forall>env user_text s recent result.
             strip user_text \<noteq> [] \<and> \<not> agent_is_responding s \<and> \<not> interruption_event s
             \<and> get_recent_memories (backend env) (conversation_id s) 20 = Inr recent
             \<and> agent env \<lparr>user_input = user_text, state_conversation_id = conversation_id s,
                   conversation_history = map (\<lambda>mem. (mem_sender mem, mem_text mem)) recent\<rparr>
                 = Returned result
             \<and> dict_get result ''response'' ''I'm sorry, I couldn't process that request.'' = text
             \<and> interruption env \<noteq> Some Signal_after_reason
             \<longrightarrow> Agent_response text \<in> set (sent (process_transcription env user_text s))
                 \<and> (accepts (backend env) (conversation_id s) text ''agent'' None \<longrightarrow>
                      new_entry (backend env) (conversation_id s) text ''agent'' None
                        \<in> set (memory (process_transcription env user_text s))
                      \<and> entry_text
                           (new_entry (backend env) (conversation_id s) text ''agent'' None)
                          = text)"
  proof (intro allI impI, elim conjE)
    fix env :: turn_env and user_text and s :: session and recent result
    assume a: "strip user_text \<noteq> []" "\<not> agent_is_responding s" "\<not> interruption_event s"
      "get_recent_memories (backend env) (conversation_id s) 20 = Inr recent"
      "agent env \<lparr>user_input = user_text, state_conversation_id = conversation_id s,
          conversation_history = map (\<lambda>mem. (mem_sender mem, mem_text mem)) recent\<rparr>
        = Returned result"
      and d: "dict_get result ''response'' ''I'm sorry, I couldn't process that request.'' = text"
      and i: "interruption env \<noteq> Some Signal_after_reason"
    let ?s4 = "(store_message env user_text ''user'' (ws_send (Transcription user_text) s))
                 \<lparr>interruption_event := False\<rparr>"
    have pt: "process_transcription env user_text s = respond env result ?s4"
      using a by (simp add: turn_taken_up)
    from respond_effect(2) [OF i d [symmetric], of ?s4]
    have s1: "Agent_response text \<in> set (sent (process_transcription env user_text s))"
      unfolding pt by auto
    have "memory (process_transcription env user_text s) =
        memory (store_message env text ''agent'' ?s4)"
      unfolding pt by (rule respond_effect(1) [OF i d [symmetric]])
    then have s2: "accepts (backend env) (conversation_id s) text ''agent'' None \<longrightarrow>
        new_entry (backend env) (conversation_id s) text ''agent'' None
          \<in> set (memory (process_transcription env user_text s))"
      by (simp add: memory_store_message store_message_frame ws_send_frame)
    have s3: "entry_text (new_entry (backend env) (conversation_id s) text ''agent'' None) = text"
      by (simp add: new_entry_def Let_def)
    from s1 s2 s3
    show "Agent_response text \<in> set (sent (process_transcription env user_text s))
          \<and> (accepts (backend env) (conversation_id s) text ''agent'' None \<longrightarrow>
               new_entry (backend env) (conversation_id s) text ''agent'' None
                 \<in> set (memory (process_transcription env user_text s))
               \<and> entry_text
                    (new_entry (backend env) (conversation_id s) text ''agent'' None)
                   = text)"
      by blast
  qed
  from off exact long short gen turn show ?thesis by blast
qed
lemma three_sentences_cleaned:
  "clean_text_for_tts three_sentences = three_sentences"
  by code_simp

lemma three_sentences_kept:
  "take_fitting []
     (py_take 5 (combine (re_split sentence_end [] None three_sentences))) 140
   = ''The quick brown fox jumps over the lazy dog near the river bank. ''
     @ ''The quick brown fox jumps over the lazy dog near the river bank. ''"
  by code_simp

lemma four_words_cleaned:
  "clean_text_for_tts four_words = four_words"
  by code_simp

lemma four_words_kept:
  "take_fitting [] (py_take 5 (combine (re_split sentence_end [] None four_words))) 11 = []"
  "take_fitting [] (py_take 5 (combine (re_split sentence_end [] None four_words))) 12 = []"
  by code_simp+

text \<open>
  With a budget of 140 characters the first two of the three sentences are kept; the turn
  sends and stores all three. Of the four words, with a budget of 11 the last space within
  the budget is at index 9, beyond 80 percent, and the cut is there; with a budget of 12
  that space is not beyond 80 percent, and the cut is behind 12 characters, inside the
  third word.
\<close>

theorem tts_text_shortened_witness:
  "three_sentences \<noteq> [] \<and> (0::int) \<le> 140
   \<and> 140 < int (length (clean_text_for_tts three_sentences))
   \<and> 100 \<le> length (take_fitting []
        (py_take 5 (combine (re_split sentence_end [] None (clean_text_for_tts three_sentences))))
        140)
   \<and> int (length (create_short_tts_version three_sentences 140 5)) \<le> 140
   \<and> (\<exists>m. create_short_tts_version three_sentences 140 5
            = take m (clean_text_for_tts three_sentences))
   \<and> Agent_response three_sentences
        \<in> set (sent (process_transcription long_answer_env ''hello'' (new_session ''c1'')))
   \<and> new_entry (backend long_answer_env) (conversation_id (new_session ''c1''))
        three_sentences ''agent'' None
        \<in> set (memory (process_transcription long_answer_env ''hello'' (new_session ''c1'')))
   \<and> four_words \<noteq> [] \<and> 12 < int (length (clean_text_for_tts four_words))
   \<and> clean_text_for_tts four_words ! 9 = CHR '' ''
   \<and> clean_text_for_tts four_words ! 10 \<noteq> CHR '' ''
   \<and> clean_text_for_tts four_words ! 11 \<noteq> CHR '' ''
   \<and> create_short_tts_version four_words 11 5 = take 9 (clean_text_for_tts four_words) @ ''...''
   \<and> create_short_tts_version four_words 12 5 = take 12 (clean_text_for_tts four_words) @ ''...''"
proof -
  let ?kept = "take_fitting []
        (py_take 5 (combine (re_split sentence_end [] None (clean_text_for_tts three_sentences))))
        140"
  have a: "three_sentences \<noteq> []" by (simp add: three_sentences_def)
  have b: "(0::int) \<le> 140" by simp
  have c: "140 < int (length (clean_text_for_tts three_sentences))"
    by (simp add: three_sentences_cleaned) (simp add: three_sentences_def)
  have d: "100 \<le> length ?kept"
    by (simp add: three_sentences_cleaned three_sentences_kept)
  have e: "strip ''hello'' \<noteq> [] \<and> \<not> agent_is_responding (new_session ''c1'')
      \<and> \<not> interruption_event (new_session ''c1'')
      \<and> get_recent_memories (backend long_answer_env) (conversation_id (new_session ''c1'')) 20
          = Inr []
      \<and> agent long_answer_env \<lparr>user_input = ''hello'',
            state_conversation_id = conversation_id (new_session ''c1''),
            conversation_history = map (\<lambda>mem. (mem_sender mem, mem_text mem)) []\<rparr>
          = Returned [(''response'', three_sentences)]
      \<and> dict_get [(''response'', three_sentences)] ''response''
            ''I'm sorry, I couldn't process that request.'' = three_sentences
      \<and> interruption long_answer_env \<noteq> Some Signal_after_reason"
    by (simp add: strip_hello new_session_quiet long_answer_env_def answering_env_def
          working_backend_recent dict_get_def)
  have f: "accepts (backend long_answer_env) (conversation_id (new_session ''c1''))
             three_sentences ''agent'' None"
    by (simp add: long_answer_env_def answering_env_def working_backend_accepts)
  note t = tts_text_shortened [OF a b refl c refl refl refl refl,
      where max_sentences = 5 and source = "speak long_answer_env"]
  from t d have g: "int (length (create_short_tts_version three_sentences 140 5)) \<le> 140
      \<and> (\<exists>m. create_short_tts_version three_sentences 140 5
               = take m (clean_text_for_tts three_sentences))"
    by blast
  from t e f have h: "Agent_response three_sentences
        \<in> set (sent (process_transcription long_answer_env ''hello'' (new_session ''c1'')))
   \<and> new_entry (backend long_answer_env) (conversation_id (new_session ''c1''))
        three_sentences ''agent'' None
        \<in> set (memory (process_transcription long_answer_env ''hello'' (new_session ''c1'')))"
    by blast
  have w: "four_words \<noteq> []" by (simp add: four_words_def)
  have len: "int (length (clean_text_for_tts four_words)) = 19"
    by (simp add: four_words_cleaned) (simp add: four_words_def)
  have l11: "11 < int (length (clean_text_for_tts four_words))"
    and l12: "12 < int (length (clean_text_for_tts four_words))"
    using len by simp_all
  have k11: "length (take_fitting [] (py_take 5
        (combine (re_split sentence_end [] None (clean_text_for_tts four_words)))) 11) < 100"
    and k12: "length (take_fitting [] (py_take 5
        (combine (re_split sentence_end [] None (clean_text_for_tts four_words)))) 12) < 100"
    by (simp_all add: four_words_cleaned four_words_kept)
  have s9: "clean_text_for_tts four_words ! 9 = CHR '' ''"
    and s10: "clean_text_for_tts four_words ! 10 \<noteq> CHR '' ''"
    and s11: "clean_text_for_tts four_words ! 11 \<noteq> CHR '' ''"
    by (simp_all add: four_words_cleaned) (simp_all add: four_words_def)
  have last11: "\<forall>j. 9 < j \<and> j < nat 11 \<longrightarrow> clean_text_for_tts four_words ! j \<noteq> CHR '' ''"
  proof (intro allI impI)
    fix j :: nat
    assume "9 < j \<and> j < nat 11"
    then have "j = 10" by linarith
    with s10 show "clean_text_for_tts four_words ! j \<noteq> CHR '' ''" by simp
  qed
  have far11: "(9::nat) < nat 11 \<and> 4 * (11::int) < 5 * int 9" by simp
  have near12: "\<forall>j. j < nat 12 \<and> clean_text_for_tts four_words ! j = CHR '' ''
      \<longrightarrow> 5 * int j \<le> 4 * 12"
  proof (intro allI impI)
    fix j :: nat
    assume j: "j < nat 12 \<and> clean_text_for_tts four_words ! j = CHR '' ''"
    then consider "j \<le> 9" | "j = 10" | "j = 11" by linarith
    then show "5 * int j \<le> 4 * 12"
    proof cases
      case 1
      then show ?thesis by linarith
    next
      case 2
      with j s10 show ?thesis by simp
    next
      case 3
      with j s11 show ?thesis by simp
    qed
  qed
  have p11: "(0::int) \<le> 11" and p12: "(0::int) \<le> 12" by simp_all
  note t11 = tts_text_shortened [OF w p11 refl l11 refl refl refl refl,
      where max_sentences = 5 and source = "speak long_answer_env"]
  note t12 = tts_text_shortened [OF w p12 refl l12 refl refl refl refl,
      where max_sentences = 5 and source = "speak long_answer_env"]
  have c11: "create_short_tts_version four_words 11 5
      = take 9 (clean_text_for_tts four_words) @ ''...''"
    using t11 k11 s9 last11 far11 by blast
  have "create_short_tts_version four_words 12 5
      = take (nat 12) (clean_text_for_tts four_words) @ ''...''"
    using t12 k12 near12 by blast
  then have c12: "create_short_tts_version four_words 12 5
      = take 12 (clean_text_for_tts four_words) @ ''...''"
    by simp
  from a b c d g h w l12 s9 s10 s11 c11 c12 show ?thesis by blast
qed

text \<open>A text of one letter repeated: no pattern matches anywhere in it.\<close>

lemma re_sub_no_match:
  assumes "\<And>prev cs. re_match p prev (c # cs) = None"
  shows "re_sub p r prev (replicate n c) = replicate n c"
  using assms by (induction n arbitrary: prev) simp_all

lemma re_split_no_match:
  assumes "\<And>prev cs. re_match p prev (c # cs) = None"
  shows "re_split p acc prev (replicate n c) = [acc @ replicate n c]"
proof (induction n arbitrary: acc prev)
  case 0
  then show ?case by simp
next
  case (Suc n)
  then show ?case using assms by (simp add: replicate_app_Cons_same)
qed

lemma letter_matches_nothing:
  "re_match (lit ''**'' @ group [Many (None_of ''*'') 1 None] @ lit ''**'') prev (CHR ''a'' # cs) = None"
  "re_match (lit ''*'' @ group [Many (None_of ''*'') 1 None] @ lit ''*'') prev (CHR ''a'' # cs) = None"
  "re_match (lit ''__'' @ group [Many (None_of ''_'') 1 None] @ lit ''__'') prev (CHR ''a'' # cs) = None"
  "re_match (lit ''_'' @ group [Many (None_of ''_'') 1 None] @ lit ''_'') prev (CHR ''a'' # cs) = None"
  "re_match (lit ''```'' @ [Lazy Any_char] @ lit ''```'') prev (CHR ''a'' # cs) = None"
  "re_match (lit ''`'' @ group [Many (None_of ''`'') 1 None] @ lit ''`'') prev (CHR ''a'' # cs) = None"
  "re_match (lit ''['' @ group [Many (None_of '']'') 1 None] @ lit ''](''
               @ [Many (None_of '')'') 1 None] @ lit '')'') prev (CHR ''a'' # cs) = None"
  "re_match [Bol, Many (Lit CHR ''#'') 1 (Some 6), Many Space 1 None] prev (CHR ''a'' # cs) = None"
  "re_match [Bol, Many Space 0 None, One (One_of ''-*+''), Many Space 1 None] prev (CHR ''a'' # cs) = None"
  "re_match [Bol, Many Digit 1 None, One (Lit CHR ''.''), Many Space 1 None] prev (CHR ''a'' # cs) = None"
  "re_match (lit ''!['' @ group [Many (None_of '']'') 0 None] @ lit ''](''
               @ [Many (None_of '')'') 1 None] @ lit '')'') prev (CHR ''a'' # cs) = None"
  "re_match (lit [CHR 0x0A, CHR 0x0A, CHR 0x0A] @ [Many (Lit (CHR 0x0A)) 0 None]) prev (CHR ''a'' # cs) = None"
  "re_match sentence_end prev (CHR ''a'' # cs) = None"
  by (simp_all add: re_match_def lit_def group_def sentence_end_def run_def is_space_def
        is_digit_def prev_after_def)

lemma re_sub_letters:
  "re_sub (lit ''**'' @ group [Many (None_of ''*'') 1 None] @ lit ''**'') r prev (replicate n CHR ''a'')
     = replicate n CHR ''a''"
  "re_sub (lit ''*'' @ group [Many (None_of ''*'') 1 None] @ lit ''*'') r prev (replicate n CHR ''a'')
     = replicate n CHR ''a''"
  "re_sub (lit ''__'' @ group [Many (None_of ''_'') 1 None] @ lit ''__'') r prev (replicate n CHR ''a'')
     = replicate n CHR ''a''"
  "re_sub (lit ''_'' @ group [Many (None_of ''_'') 1 None] @ lit ''_'') r prev (replicate n CHR ''a'')
     = replicate n CHR ''a''"
  "re_sub (lit ''```'' @ [Lazy Any_char] @ lit ''```'') r prev (replicate n CHR ''a'')
     = replicate n CHR ''a''"
  "re_sub (lit ''`'' @ group [Many (None_of ''`'') 1 None] @ lit ''`'') r prev (replicate n CHR ''a'')
     = replicate n CHR ''a''"
  "re_sub (lit ''['' @ group [Many (None_of '']'') 1 None] @ lit ''](''
             @ [Many (None_of '')'') 1 None] @ lit '')'') r prev (replicate n CHR ''a'')
     = replicate n CHR ''a''"
  "re_sub [Bol, Many (Lit CHR ''#'') 1 (Some 6), Many Space 1 None] r prev (replicate n CHR ''a'')
     = replicate n CHR ''a''"
  "re_sub [Bol, Many Space 0 None, One (One_of ''-*+''), Many Space 1 None] r prev
     (replicate n CHR ''a'') = replicate n CHR ''a''"
  "re_sub [Bol, Many Digit 1 None, One (Lit CHR ''.''), Many Space 1 None] r prev
     (replicate n CHR ''a'') = replicate n CHR ''a''"
  "re_sub (lit ''!['' @ group [Many (None_of '']'') 0 None] @ lit ''](''
             @ [Many (None_of '')'') 1 None] @ lit '')'') r prev (replicate n CHR ''a'')
     = replicate n CHR ''a''"
  "re_sub (lit [CHR 0x0A, CHR 0x0A, CHR 0x0A] @ [Many (Lit (CHR 0x0A)) 0 None]) r prev
     (replicate n CHR ''a'') = replicate n CHR ''a''"
  by (rule re_sub_no_match, rule letter_matches_nothing)+

lemma strip_letters:
  "strip (replicate n CHR ''a'') = replicate n CHR ''a''"
  by (simp add: strip_def is_space_def)

lemma clean_letters:
  "clean_text_for_tts (replicate n CHR ''a'') = replicate n CHR ''a''"
  unfolding clean_text_for_tts_def Let_def re_sub_letters strip_letters
  by simp

lemma rfind_from_absent:
  "c \<notin> set s \<Longrightarrow> rfind_from s c i r = r"
  by (induction s arbitrary: i) auto

lemma shorten_letters:
  assumes "0 \<le> max_chars" and "nat max_chars < n"
  shows "create_short_tts_version (replicate n CHR ''a'') max_chars max_sentences
           = replicate (nat max_chars) CHR ''a'' @ ''...''"
proof -
  have ne: "replicate n CHR ''a'' \<noteq> []" using assms by auto
  have long: "\<not> int n \<le> max_chars" using assms by linarith
  have split: "re_split sentence_end [] None (replicate n CHR ''a'') = [replicate n CHR ''a'']"
    by (simp add: re_split_no_match letter_matches_nothing)
  have tr: "py_take max_chars (replicate n CHR ''a'') = replicate (nat max_chars) CHR ''a''"
    using assms by (simp add: py_take_def min_def)
  have rf: "rfind (replicate (nat max_chars) CHR ''a'') CHR '' '' = - 1"
    by (simp add: rfind_def rfind_from_absent)
  have no: "\<not> 5 * (- 1 :: int) > 4 * max_chars" using assms by linarith
  have fit: "take_fitting [] (py_take max_sentences (combine [replicate n CHR ''a''])) max_chars
               = []"
    by (simp add: py_take_def)
  show ?thesis
    unfolding create_short_tts_version_def Let_def clean_letters split fit tr rf
    using ne long no by simp
qed

text \<open>
  Against claim C7 as it is stated. A word of three letters and one of thirteen, with a
  budget of ten characters: the only space is not beyond 80 percent of the budget, so the
  text handed to synthesis is cut behind ten characters, inside the second word, although a
  word boundary lies within the budget. Twelve letters with the same budget, and 1501
  letters with the budget of the voice session, are cut inside the word as well.
\<close>

theorem tts_text_shortened_counterexample:
  "10 < int (length (clean_text_for_tts long_word))
   \<and> create_short_tts_version long_word 10 5 = ''aaa bbbbbb...''
   \<and> clean_text_for_tts long_word ! 9 = CHR ''b''
   \<and> clean_text_for_tts long_word ! 10 = CHR ''b''
   \<and> 10 < int (length (clean_text_for_tts ''aaaaaaaaaaaa''))
   \<and> create_short_tts_version ''aaaaaaaaaaaa'' 10 5 = ''aaaaaaaaaa...''
   \<and> 1500 < int (length (clean_text_for_tts (replicate 1501 CHR ''a'')))
   \<and> create_short_tts_version (replicate 1501 CHR ''a'') 1500 5
       = replicate 1500 CHR ''a'' @ ''...''"
proof -
  have small: "10 < int (length (clean_text_for_tts long_word))
      \<and> create_short_tts_version long_word 10 5 = ''aaa bbbbbb...''
      \<and> clean_text_for_tts long_word ! 9 = CHR ''b''
      \<and> clean_text_for_tts long_word ! 10 = CHR ''b''
      \<and> 10 < int (length (clean_text_for_tts ''aaaaaaaaaaaa''))
      \<and> create_short_tts_version ''aaaaaaaaaaaa'' 10 5 = ''aaaaaaaaaa...''"
    by code_simp
  have a: "1500 < int (length (clean_text_for_tts (replicate 1501 CHR ''a'')))"
    unfolding clean_letters by simp
  have "create_short_tts_version (replicate 1501 CHR ''a'') 1500 5
       = replicate (nat 1500) CHR ''a'' @ ''...''"
    by (rule shorten_letters) simp_all
  then have b: "create_short_tts_version (replicate 1501 CHR ''a'') 1500 5
       = replicate 1500 CHR ''a'' @ ''...''"
    by simp
  from small a b show ?thesis by blast
qed


end
